theory Spec2Isabelle
  imports Main "HOL-Library.Word"
begin

unbundle bit_operations_syntax

section \<open>Data model of go/libkb/pgp\_key.go\<close>

text \<open>
  Go strings are byte sequences; they are modelled as \<open>string\<close>. Byte slices and byte
  arrays are lists of 8-bit words. A Go panic is a value of type \<open>panic\<close>: a function
  that can panic returns \<open>panic + 'a\<close>. A Go \<open>error\<close> result is an \<open>error option\<close>
  (\<open>None\<close> is \<open>nil\<close>) or the left side of a sum.
\<close>

type_synonym byte = "8 word"

datatype panic =
    NilPointerDereference
  | SliceBoundsOutOfRange
  | IndexOutOfRange
  | MakeSliceLenOutOfRange

datatype error =
    NoKeyError string
  | TooManyKeysError nat
  | NoSecretKeyError
  | PassphraseError
  | BadSigError string
  | KeyCannotEncryptError
  | KeyCannotDecryptError
  | HexWrongLengthError
  | BadFingerprintWrongLength nat
  | InvalidByteError char
  | ErrLength
  | LibraryError string

text \<open>
  \<open>BadFingerprintWrongLength n\<close> is \<^verbatim>\<open>fmt.Errorf("Bad fingerprint; wrong length: %d", n)\<close>.
  \<open>InvalidByteError\<close> and \<open>ErrLength\<close> are the errors of Go's \<^verbatim>\<open>encoding/hex\<close>.
  \<open>LibraryError msg\<close> is an error of an external library, with its message.
\<close>

subsection \<open>The OpenPGP entity (types of the external openpgp and packet packages)\<close>

text \<open>
  Only the fields pgp\_key.go reads or writes are kept; \<open>KeyData\<close> stands for the rest
  of the key material. Pointer fields that pgp\_key.go compares with \<^verbatim>\<open>nil\<close> are
  options. \<open>PrimaryKey\<close> of an entity and \<open>Sig\<close> of a subkey are pointers too, but the
  decoder builds no entity without a primary key and lists no subkey without a
  signature, and pgp\_key.go never tests them: they are plain fields here.
\<close>

record packet_PublicKey =
  Fingerprint :: "byte list"
  PubKeyAlgo :: byte
  KeyData :: "byte list"

record packet_PrivateKey =
  PrivateKey_PublicKey :: packet_PublicKey
  Encrypted :: bool
  PrivateKey_material :: "byte list option"

record packet_Signature =
  SigType :: byte
  Hash :: nat
  IsPrimaryId :: "bool option"
  KeyLifetimeSecs :: "32 word option"
  CreationTime :: int

record Identity =
  Name :: string
  UserId_Id :: "string option"
  SelfSignature :: "packet_Signature option"

record Subkey =
  Subkey_PublicKey :: packet_PublicKey
  Subkey_PrivateKey :: "packet_PrivateKey option"
  Sig :: packet_Signature
  Revocation :: "packet_Signature option"

record BadSubkey =
  BadSubkey_Subkey :: Subkey
  Err :: string

record Entity =
  PrimaryKey :: packet_PublicKey
  PrivateKey :: "packet_PrivateKey option"
  Identities :: "string \<rightharpoonup> Identity"
  Revocations :: "packet_Signature list"
  Subkeys :: "Subkey list"
  BadSubkeys :: "BadSubkey list"

definition SigTypeSubkeyBinding :: byte where
  "SigTypeSubkeyBinding = 0x18"

definition crypto_SHA1 :: nat where
  "crypto_SHA1 = 3"

subsection \<open>The key bundle\<close>

record GPGKey =
  GPGKey_fp :: "byte list"
  GPGKey_kid :: "byte list"

record PGPKeyBundle =
  Entity :: Entity
  GPGFallbackKey :: "GPGKey option"
  ArmoredPublicKey :: string
  Generated :: bool

definition NewPGPKeyBundle :: "Entity \<Rightarrow> PGPKeyBundle" where
  "NewPGPKeyBundle entity =
     \<lparr>Entity = entity, GPGFallbackKey = None, ArmoredPublicKey = [], Generated = False\<rparr>"

definition NewGeneratedPGPKeyBundle :: "Entity \<Rightarrow> PGPKeyBundle" where
  "NewGeneratedPGPKeyBundle entity =
     \<lparr>Entity = entity, GPGFallbackKey = None, ArmoredPublicKey = [], Generated = True\<rparr>"

subsection \<open>Signatures over messages\<close>

record ParsedSig =
  LiteralData :: "byte list"
  MD_Signature_Hash :: nat
  SigBody :: "byte list"

record SigVerifyResult =
  SigID :: string
  WeakDigest :: "nat option"

definition SigVerifyResult_zero :: SigVerifyResult where
  "SigVerifyResult_zero = \<lparr>SigID = [], WeakDigest = None\<rparr>"

subsection \<open>Collaborators\<close>

text \<open>
  Everything pgp\_key.go calls that is not in pgp\_key.go is a field of \<open>env\<close>: the
  OpenPGP engine (decode, serialize, decrypt, armor), Go's standard library (regular
  expressions, SHA-256, Unicode case mapping, \<^verbatim>\<open>strings.TrimSpace\<close>) and the
  functions and constants of libkb and kbcrypto defined in other files
  (\<^verbatim>\<open>MergeKey\<close>, \<^verbatim>\<open>PGPOpenSig\<close>, \<^verbatim>\<open>ParsedSig.Verify\<close>, \<^verbatim>\<open>ParsedSig.ID\<close>,
  \<^verbatim>\<open>KeybaseKIDV1\<close>, \<^verbatim>\<open>IDSuffixKID\<close>).

  \<open>ReadArmoredKeyRing\<close> returns the entity list and the error, as the Go function does.
  \<open>PublicKey_Serialize\<close> is the content of the buffer after
  \<^verbatim>\<open>k.PrimaryKey.Serialize(&buf)\<close>. \<open>PrivateKey_Decrypt\<close> returns the key after
  \<^verbatim>\<open>Decrypt\<close> and the message of its error, if any. \<open>MergeKey to from\<close> is the
  receiver after \<^verbatim>\<open>to.MergeKey(from)\<close>. \<open>cleanPGPInputRxx_Split\<close> is
  \<^verbatim>\<open>cleanPGPInputRxx.Split(s, -1)\<close> and \<open>bug8612PrepassRxx_FindStringSubmatch\<close> is
  \<^verbatim>\<open>bug8612PrepassRxx.FindStringSubmatch\<close> (the empty list when nothing matches).
  \<open>VerboseDescription\<close> is the text \<^verbatim>\<open>k.VerboseDescription()\<close> formats for the
  passphrase prompt from the identities and the library's rendering of the key.
\<close>

record env =
  ReadArmoredKeyRing :: "string \<Rightarrow> Entity list \<times> error option"
  PublicKey_Serialize :: "packet_PublicKey \<Rightarrow> byte list"
  PrivateKey_Decrypt :: "packet_PrivateKey \<Rightarrow> string \<Rightarrow> packet_PrivateKey \<times> string option"
  Entity_Serialize :: "Entity \<Rightarrow> error + byte list"
  Entity_SerializePrivate :: "Entity \<Rightarrow> bool \<Rightarrow> error + byte list"
  armor_Encode :: "string \<Rightarrow> error option"
  armor_Close :: "string \<Rightarrow> byte list \<Rightarrow> error + string"
  TrimSpace :: "string \<Rightarrow> string"
  cleanPGPInputRxx_Split :: "string \<Rightarrow> string list"
  bug8612PrepassRxx_FindStringSubmatch :: "string \<Rightarrow> string list"
  Sum256 :: "byte list \<Rightarrow> byte list"
  unicode_ToUpper :: "string \<Rightarrow> string"
  unicode_ToLower :: "string \<Rightarrow> string"
  MergeKey :: "PGPKeyBundle \<Rightarrow> PGPKeyBundle \<Rightarrow> PGPKeyBundle"
  PGPOpenSig :: "string \<Rightarrow> error + ParsedSig"
  ParsedSig_Verify :: "ParsedSig \<Rightarrow> PGPKeyBundle \<Rightarrow> error option"
  ParsedSig_ID :: "ParsedSig \<Rightarrow> string"
  KeybaseKIDV1 :: byte
  IDSuffixKID :: byte
  VerboseDescription :: "PGPKeyBundle \<Rightarrow> string"


section \<open>Fingerprints\<close>

text \<open>
  \<^verbatim>\<open>type PGPFingerprint [PGPFingerprintLen]byte\<close>: a byte list, of length 20 in Go.
  A \<^verbatim>\<open>*PGPFingerprint\<close> is a \<open>PGPFingerprint option\<close>.
\<close>

type_synonym PGPFingerprint = "byte list"

definition PGPFingerprintLen :: nat where
  "PGPFingerprintLen = 20"

subsection \<open>Go's encoding/hex and strings\<close>

definition hextable :: string where
  "hextable = ''0123456789abcdef''"

text \<open>\<^verbatim>\<open>hex.EncodeToString\<close>: two digits per byte, high nibble first.\<close>

fun hex_EncodeToString :: "byte list \<Rightarrow> string" where
  "hex_EncodeToString [] = []"
| "hex_EncodeToString (v # vs) =
     hextable ! unat (drop_bit 4 v) # hextable ! unat (v AND 0x0f) # hex_EncodeToString vs"

text \<open>The value of a hex digit, lower or upper case; \<open>None\<close> for any other character.\<close>

definition fromHexChar :: "char \<Rightarrow> byte option" where
  "fromHexChar c =
     (let n = (of_char c :: nat) in
      if 48 \<le> n \<and> n \<le> 57 then Some (of_nat (n - 48))
      else if 97 \<le> n \<and> n \<le> 102 then Some (of_nat (n - 87))
      else if 65 \<le> n \<and> n \<le> 70 then Some (of_nat (n - 55))
      else None)"

text \<open>
  \<^verbatim>\<open>hex.Decode\<close>: pairs of digits, left to right; the first bad character is reported;
  an odd length is \<open>ErrLength\<close>, after its last character has been checked.
\<close>

fun hex_Decode :: "string \<Rightarrow> error + byte list" where
  "hex_Decode [] = Inr []"
| "hex_Decode [p] =
     (case fromHexChar p of None \<Rightarrow> Inl (InvalidByteError p) | Some a \<Rightarrow> Inl ErrLength)"
| "hex_Decode (p # q # rest) =
     (case fromHexChar p of
        None \<Rightarrow> Inl (InvalidByteError p)
      | Some a \<Rightarrow>
          (case fromHexChar q of
             None \<Rightarrow> Inl (InvalidByteError q)
           | Some b \<Rightarrow>
               (case hex_Decode rest of
                  Inl e \<Rightarrow> Inl e
                | Inr bs \<Rightarrow> Inr ((push_bit 4 a OR b) # bs))))"

text \<open>
  \<^verbatim>\<open>strings.ToUpper\<close> and \<^verbatim>\<open>strings.ToLower\<close>: on a string of ASCII bytes they shift
  the letters; any other string goes through the Unicode case mapping.
\<close>

definition isASCII :: "string \<Rightarrow> bool" where
  "isASCII s = list_all (\<lambda>c. (of_char c :: nat) < 128) s"

definition asciiUpper :: "char \<Rightarrow> char" where
  "asciiUpper c =
     (let n = (of_char c :: nat) in if 97 \<le> n \<and> n \<le> 122 then char_of (n - 32) else c)"

definition asciiLower :: "char \<Rightarrow> char" where
  "asciiLower c =
     (let n = (of_char c :: nat) in if 65 \<le> n \<and> n \<le> 90 then char_of (n + 32) else c)"

definition ToUpper :: "env \<Rightarrow> string \<Rightarrow> string" where
  "ToUpper ev s = (if isASCII s then map asciiUpper s else unicode_ToUpper ev s)"

definition ToLower :: "env \<Rightarrow> string \<Rightarrow> string" where
  "ToLower ev s = (if isASCII s then map asciiLower s else unicode_ToLower ev s)"

definition HasSuffix :: "string \<Rightarrow> string \<Rightarrow> bool" where
  "HasSuffix s suf =
     (length suf \<le> length s \<and> drop (length s - length suf) s = suf)"

subsection \<open>Parsing\<close>

text \<open>
  Modelled from the spec: \<^verbatim>\<open>DecodeHexFixed\<close> is defined in another file of libkb. The
  spec's "parse from hex (fixed length, else a length-error)": the source must have
  two digits for each byte of the destination, and is then decoded by \<^verbatim>\<open>hex.Decode\<close>.
  The result is the destination after the call.
\<close>

definition DecodeHexFixed :: "nat \<Rightarrow> string \<Rightarrow> error + byte list" where
  "DecodeHexFixed dstlen src =
     (if length src \<noteq> 2 * dstlen then Inl HexWrongLengthError else hex_Decode src)"

definition PGPFingerprintFromHex :: "string \<Rightarrow> error + PGPFingerprint" where
  "PGPFingerprintFromHex s =
     (case DecodeHexFixed PGPFingerprintLen s of
        Inr fp \<Rightarrow> Inr fp
      | Inl HexWrongLengthError \<Rightarrow> Inl (BadFingerprintWrongLength (length s))
      | Inl e \<Rightarrow> Inl e)"

subsection \<open>Display\<close>

definition String :: "PGPFingerprint \<Rightarrow> string" where
  "String p = hex_EncodeToString p"

text \<open>
  The loop of \<^verbatim>\<open>ToQuads\<close>: \<open>i\<close> is the index in \<open>x\<close>, \<open>j\<close> the index in \<open>ret\<close>. A write
  past the end of \<open>ret\<close> panics in Go.
\<close>

fun ToQuads_loop :: "nat \<Rightarrow> nat \<Rightarrow> nat \<Rightarrow> string \<Rightarrow> string \<Rightarrow> panic + string" where
  "ToQuads_loop totlen i j [] ret = Inr ret"
| "ToQuads_loop totlen i j (b # x) ret =
     (if length ret \<le> j then Inl IndexOutOfRange
      else if i mod 4 = 3 \<and> j + 1 < totlen then
        (if length ret \<le> j + 1 then Inl IndexOutOfRange
         else ToQuads_loop totlen (i + 1) (j + 2) x (ret[j := b, j + 1 := CHR '' '']))
      else ToQuads_loop totlen (i + 1) (j + 1) x (ret[j := b]))"

definition ToQuads :: "env \<Rightarrow> PGPFingerprint \<Rightarrow> panic + string" where
  "ToQuads ev p =
     (let x = ToUpper ev (String p) in
      if length x * 5 div 4 < 1 then Inl MakeSliceLenOutOfRange
      else
        (let totlen = length x * 5 div 4 - 1
         in ToQuads_loop totlen 0 0 x (replicate totlen (CHR 0x00))))"

subsection \<open>Matching\<close>

definition Match :: "env \<Rightarrow> PGPFingerprint option \<Rightarrow> string \<Rightarrow> bool \<Rightarrow> bool" where
  "Match ev p q exact =
     (case p of
        None \<Rightarrow> False
      | Some fp \<Rightarrow>
          if exact then ToLower ev (String fp) = ToLower ev q
          else HasSuffix (ToLower ev (String fp)) (ToLower ev q))"

section \<open>Key bundles\<close>

subsection \<open>Comparison and encoding\<close>

text \<open>
  Modelled from the spec: \<^verbatim>\<open>FastByteArrayEq\<close> is defined in another file of libkb. The
  spec's "byte-exact comparison": two byte sequences are equal when they have the same
  bytes.
\<close>

definition FastByteArrayEq :: "byte list \<Rightarrow> byte list \<Rightarrow> bool" where
  "FastByteArrayEq a b = (a = b)"

definition SamePrimaryAs :: "PGPKeyBundle \<Rightarrow> PGPKeyBundle \<Rightarrow> bool" where
  "SamePrimaryAs k k2 =
     FastByteArrayEq (Fingerprint (PrimaryKey (Entity k))) (Fingerprint (PrimaryKey (Entity k2)))"

text \<open>
  \<^verbatim>\<open>EncodeToStream\<close>: open the armor writer for the block type, serialize the entity
  into it, close it. The result is the text written when all three succeed.
\<close>

definition EncodeToStream :: "env \<Rightarrow> PGPKeyBundle \<Rightarrow> bool \<Rightarrow> error + string" where
  "EncodeToStream ev k private =
     (let which = (if private then ''PRIVATE'' else ''PUBLIC'');
          hdr = ''PGP '' @ which @ '' KEY BLOCK''
      in case armor_Encode ev hdr of
           Some e \<Rightarrow> Inl e
         | None \<Rightarrow>
             (case (if private then Entity_SerializePrivate ev (Entity k) (\<not> Generated k)
                    else Entity_Serialize ev (Entity k)) of
                Inl e \<Rightarrow> Inl e
              | Inr raw \<Rightarrow> armor_Close ev hdr raw))"

text \<open>
  \<^verbatim>\<open>Encode\<close> returns the text, the error and the bundle after the call (the call
  stores the text it serialized in \<open>ArmoredPublicKey\<close>).
\<close>

definition Encode :: "env \<Rightarrow> PGPKeyBundle \<Rightarrow> string \<times> error option \<times> PGPKeyBundle" where
  "Encode ev k =
     (if ArmoredPublicKey k \<noteq> [] then (ArmoredPublicKey k, None, k)
      else (case EncodeToStream ev k False of
              Inl e \<Rightarrow> ([], Some e, k)
            | Inr ret \<Rightarrow> (ret, None, k\<lparr>ArmoredPublicKey := ret\<rparr>)))"

subsection \<open>Armor ingestion\<close>

fun Join :: "string list \<Rightarrow> string \<Rightarrow> string" where
  "Join [] sep = []"
| "Join [v] sep = v"
| "Join (v # vs) sep = v @ sep @ Join vs sep"

definition cleanPGPInput :: "env \<Rightarrow> string \<Rightarrow> string" where
  "cleanPGPInput ev s =
     (let s' = TrimSpace ev s;
          v = cleanPGPInputRxx_Split ev s'
      in Join v [CHR 0x0A])"

text \<open>
  The names of the groups of \<^verbatim>\<open>bug8612PrepassRxx\<close>, as \<^verbatim>\<open>SubexpNames\<close> lists them
  (index 0 is the whole match). The submatch list has one entry for each name whenever
  it is not empty.
\<close>

definition bug8612PrepassRxx_SubexpNames :: "string list" where
  "bug8612PrepassRxx_SubexpNames = ['''', ''header'', '''', '''', ''junk'']"

definition bug8612Prepass :: "env \<Rightarrow> string \<Rightarrow> string" where
  "bug8612Prepass ev a =
     (if CHR 0x0A \<notin> set a then a
      else
        (let line0 = takeWhile (\<lambda>c. c \<noteq> CHR 0x0A) a;
             rest = dropWhile (\<lambda>c. c \<noteq> CHR 0x0A) a;
             match = bug8612PrepassRxx_FindStringSubmatch ev line0
         in if match = [] then a
            else
              (let result = foldl (\<lambda>m (name, v). m(name \<mapsto> v)) Map.empty
                              (tl (zip bug8612PrepassRxx_SubexpNames match))
               in (case result ''header'' of None \<Rightarrow> [] | Some h \<Rightarrow> h) @ rest)))"

type_synonym Warnings = "string list"

text \<open>
  \<^verbatim>\<open>mergeKeysIfPossible\<close> changes \<open>out\<close> in place and returns an error: the model
  returns \<open>out\<close> after the call and the error. \<open>n\<close> is \<^verbatim>\<open>len(lst)\<close>.
\<close>

fun mergeKeysIfPossible_loop ::
  "env \<Rightarrow> nat \<Rightarrow> PGPKeyBundle \<Rightarrow> Entity list \<Rightarrow> PGPKeyBundle \<times> error option" where
  "mergeKeysIfPossible_loop ev n out [] = (out, None)"
| "mergeKeysIfPossible_loop ev n out (e # es) =
     (let tmp = NewPGPKeyBundle e
      in if SamePrimaryAs out tmp then mergeKeysIfPossible_loop ev n (MergeKey ev out tmp) es
         else (out, Some (TooManyKeysError (n + 1))))"

definition mergeKeysIfPossible ::
  "env \<Rightarrow> PGPKeyBundle \<Rightarrow> Entity list \<Rightarrow> PGPKeyBundle \<times> error option" where
  "mergeKeysIfPossible ev out lst = mergeKeysIfPossible_loop ev (length lst) out lst"

definition finishReadOne ::
  "env \<Rightarrow> Entity list \<Rightarrow> string \<Rightarrow> error option
     \<Rightarrow> PGPKeyBundle option \<times> Warnings \<times> error option" where
  "finishReadOne ev lst armored err =
     (case err of
        Some e \<Rightarrow> (None, [], Some e)
      | None \<Rightarrow>
          (case lst of
             [] \<Rightarrow> (None, [], Some (NoKeyError ''No keys found in primary bundle''))
           | e0 # rest \<Rightarrow>
               (case (if 1 < length lst then mergeKeysIfPossible ev (NewPGPKeyBundle e0) rest
                      else (NewPGPKeyBundle e0, None)) of
                  (first, Some e) \<Rightarrow> (None, [], Some e)
                | (first, None) \<Rightarrow>
                    (let w = map (\<lambda>bs. ''Bad subkey: '' @ Err bs) (BadSubkeys (Entity first))
                     in (Some (if PrivateKey (Entity first) = None
                               then first\<lparr>ArmoredPublicKey := armored\<rparr> else first),
                         w, None)))))"

definition readOneKeyFromString ::
  "env \<Rightarrow> string \<Rightarrow> bool \<Rightarrow> PGPKeyBundle option \<times> Warnings \<times> error option" where
  "readOneKeyFromString ev originalArmor liberal =
     (let cleanArmor = cleanPGPInput ev originalArmor;
          cleanArmor' = (if liberal then bug8612Prepass ev cleanArmor else cleanArmor);
          (el, err) = ReadArmoredKeyRing ev cleanArmor'
      in finishReadOne ev el originalArmor err)"

definition ReadOneKeyFromString ::
  "env \<Rightarrow> string \<Rightarrow> PGPKeyBundle option \<times> Warnings \<times> error option" where
  "ReadOneKeyFromString ev originalArmor = readOneKeyFromString ev originalArmor False"

definition ReadOneKeyFromStringLiberal ::
  "env \<Rightarrow> string \<Rightarrow> PGPKeyBundle option \<times> Warnings \<times> error option" where
  "ReadOneKeyFromStringLiberal ev originalArmor = readOneKeyFromString ev originalArmor True"

subsection \<open>Revocation stripping\<close>

text \<open>
  \<^verbatim>\<open>StripRevocations\<close> builds on the strict re-read of the cached armored text when
  there is one and it decodes, and on a bundle around a copy of the entity otherwise.
  \<open>subkey_kept\<close> is the condition under which its loop keeps a subkey.
\<close>

definition subkey_kept :: "Subkey \<Rightarrow> bool" where
  "subkey_kept subkey = (SigType (Sig subkey) = SigTypeSubkeyBinding \<and> Revocation subkey = None)"

definition StripRevocations :: "env \<Rightarrow> PGPKeyBundle \<Rightarrow> PGPKeyBundle" where
  "StripRevocations ev k =
     (let reread = (if ArmoredPublicKey k \<noteq> []
                    then fst (ReadOneKeyFromString ev (ArmoredPublicKey k)) else None);
          strippedKey = (case reread of
                           None \<Rightarrow> NewPGPKeyBundle (Entity k)
                         | Some b \<Rightarrow> b);
          oldSubkeys = Subkeys (Entity strippedKey)
      in strippedKey\<lparr>Entity := (Entity strippedKey)
           \<lparr>Revocations := [], Subkeys := filter subkey_kept oldSubkeys\<rparr>\<rparr>)"

subsection \<open>The key identifier\<close>

text \<open>
  \<^verbatim>\<open>buf.Bytes()[hdrBytes:]\<close> panics when the buffer is shorter than the header.
\<close>

definition GetBinaryKID :: "env \<Rightarrow> PGPKeyBundle \<Rightarrow> panic + byte list" where
  "GetBinaryKID ev k =
     (let prefix = [KeybaseKIDV1 ev, PubKeyAlgo (PrimaryKey (Entity k))];
          byts = PublicKey_Serialize ev (PrimaryKey (Entity k));
          hdrBytes = (if 193 \<le> length byts then 8 + 1 else 8)
      in if length byts < hdrBytes then Inl SliceBoundsOutOfRange
         else
           (let sum = Sum256 ev (drop hdrBytes byts);
                out = prefix @ sum
            in Inr (out @ [IDSuffixKID ev])))"

subsection \<open>Unlocking\<close>

text \<open>
  \<^verbatim>\<open>unlockPrivateKey\<close> takes a pointer: \<open>None\<close> is the nil pointer, whose field
  \<^verbatim>\<open>Encrypted\<close> cannot be read. The result is the key after the call and the error.
\<close>

definition unlockPrivateKey ::
  "env \<Rightarrow> packet_PrivateKey option \<Rightarrow> string \<Rightarrow> panic + (packet_PrivateKey \<times> error option)" where
  "unlockPrivateKey ev k pw =
     (case k of
        None \<Rightarrow> Inl NilPointerDereference
      | Some pk \<Rightarrow>
          if \<not> Encrypted pk then Inr (pk, None)
          else
            (case PrivateKey_Decrypt ev pk pw of
               (pk', None) \<Rightarrow> Inr (pk', None)
             | (pk', Some msg) \<Rightarrow>
                 if HasSuffix msg ''private key checksum failure''
                 then Inr (pk', Some PassphraseError)
                 else Inr (pk', Some (LibraryError msg))))"

fun isAnyKeyEncrypted_subkeys :: "Subkey list \<Rightarrow> panic + bool" where
  "isAnyKeyEncrypted_subkeys [] = Inr False"
| "isAnyKeyEncrypted_subkeys (subkey # rest) =
     (case Subkey_PrivateKey subkey of
        None \<Rightarrow> Inl NilPointerDereference
      | Some pk \<Rightarrow> if Encrypted pk then Inr True else isAnyKeyEncrypted_subkeys rest)"

definition isAnyKeyEncrypted :: "PGPKeyBundle \<Rightarrow> panic + bool" where
  "isAnyKeyEncrypted k =
     (case PrivateKey (Entity k) of
        None \<Rightarrow> Inl NilPointerDereference
      | Some pk \<Rightarrow>
          if Encrypted pk then Inr True else isAnyKeyEncrypted_subkeys (Subkeys (Entity k)))"

text \<open>
  The loop of \<^verbatim>\<open>unlockAllPrivateKeys\<close> over the subkeys: the subkeys after the loop
  (those before a failure are decrypted) and the error.
\<close>

fun unlockAllPrivateKeys_subkeys ::
  "env \<Rightarrow> string \<Rightarrow> Subkey list \<Rightarrow> panic + (Subkey list \<times> error option)" where
  "unlockAllPrivateKeys_subkeys ev pw [] = Inr ([], None)"
| "unlockAllPrivateKeys_subkeys ev pw (subkey # rest) =
     (case unlockPrivateKey ev (Subkey_PrivateKey subkey) pw of
        Inl p \<Rightarrow> Inl p
      | Inr (pk', Some e) \<Rightarrow> Inr (subkey\<lparr>Subkey_PrivateKey := Some pk'\<rparr> # rest, Some e)
      | Inr (pk', None) \<Rightarrow>
          (case unlockAllPrivateKeys_subkeys ev pw rest of
             Inl p \<Rightarrow> Inl p
           | Inr (rest', err) \<Rightarrow> Inr (subkey\<lparr>Subkey_PrivateKey := Some pk'\<rparr> # rest', err)))"

definition unlockAllPrivateKeys ::
  "env \<Rightarrow> PGPKeyBundle \<Rightarrow> string \<Rightarrow> panic + (PGPKeyBundle \<times> error option)" where
  "unlockAllPrivateKeys ev k pw =
     (case unlockPrivateKey ev (PrivateKey (Entity k)) pw of
        Inl p \<Rightarrow> Inl p
      | Inr (pk', Some e) \<Rightarrow> Inr (k\<lparr>Entity := (Entity k)\<lparr>PrivateKey := Some pk'\<rparr>\<rparr>, Some e)
      | Inr (pk', None) \<Rightarrow>
          (case unlockAllPrivateKeys_subkeys ev pw (Subkeys (Entity k)) of
             Inl p \<Rightarrow> Inl p
           | Inr (subkeys', err) \<Rightarrow>
               Inr (k\<lparr>Entity := (Entity k)\<lparr>PrivateKey := Some pk', Subkeys := subkeys'\<rparr>\<rparr>, err)))"

text \<open>
  \<^verbatim>\<open>Unlock\<close>. The retry machine \<^verbatim>\<open>NewKeyUnlocker(...).Run\<close> is defined in another
  file of libkb: it is the parameter \<open>run\<close>, which gets the retry budget, the reason, the
  description, the unlocker closure and the prompt collaborator, whose state \<open>'ui\<close>
  records what it was asked. \<open>Unlock\<close> returns the error, the bundle after the call
  and the collaborator's state after the call.
\<close>

type_synonym 'ui KeyUnlocker_Run =
  "nat \<Rightarrow> string \<Rightarrow> string
     \<Rightarrow> (string \<Rightarrow> PGPKeyBundle \<Rightarrow> panic + (PGPKeyBundle \<times> error option))
     \<Rightarrow> 'ui \<Rightarrow> PGPKeyBundle \<Rightarrow> panic + (error option \<times> PGPKeyBundle \<times> 'ui)"

definition Unlock ::
  "'ui KeyUnlocker_Run \<Rightarrow> env \<Rightarrow> PGPKeyBundle \<Rightarrow> string \<Rightarrow> 'ui
     \<Rightarrow> panic + (error option \<times> PGPKeyBundle \<times> 'ui)" where
  "Unlock run ev k reason secretUI =
     (case isAnyKeyEncrypted k of
        Inl p \<Rightarrow> Inl p
      | Inr False \<Rightarrow> Inr (None, k, secretUI)
      | Inr True \<Rightarrow>
          run 5 reason (VerboseDescription ev k)
            (\<lambda>pw k'. unlockAllPrivateKeys ev k' pw) secretUI k)"

subsection \<open>The generic key surface\<close>

text \<open>\<^verbatim>\<open>VerifyStringAndExtract\<close> and \<^verbatim>\<open>VerifyString\<close>; their debug output is left out.\<close>

definition VerifyStringAndExtract ::
  "env \<Rightarrow> PGPKeyBundle \<Rightarrow> string \<Rightarrow> byte list \<times> SigVerifyResult \<times> error option" where
  "VerifyStringAndExtract ev k sig =
     (case PGPOpenSig ev sig of
        Inl e \<Rightarrow> ([], SigVerifyResult_zero, Some e)
      | Inr ps \<Rightarrow>
          (case ParsedSig_Verify ev ps k of
             Some e \<Rightarrow> ([], SigVerifyResult_zero, Some e)
           | None \<Rightarrow>
               (LiteralData ps,
                \<lparr>SigID = ParsedSig_ID ev ps,
                 WeakDigest = (if MD_Signature_Hash ps = crypto_SHA1
                               then Some (MD_Signature_Hash ps) else None)\<rparr>,
                None)))"

definition VerifyString ::
  "env \<Rightarrow> PGPKeyBundle \<Rightarrow> string \<Rightarrow> byte list \<Rightarrow> SigVerifyResult \<times> error option" where
  "VerifyString ev k sig msg =
     (case VerifyStringAndExtract ev k sig of
        (extractedMsg, res, Some e) \<Rightarrow> (SigVerifyResult_zero, Some e)
      | (extractedMsg, res, None) \<Rightarrow>
          if \<not> FastByteArrayEq extractedMsg msg
          then (SigVerifyResult_zero, Some (BadSigError ''wrong payload''))
          else (res, None))"

text \<open>
  The encryption operations. \<open>'g\<close> is the type of the sender (a \<^verbatim>\<open>GenericKey\<close>); the
  zero \<^verbatim>\<open>keybase1.KID\<close> is the empty string and the zero \<^verbatim>\<open>NaclSecretBoxKey\<close> is 32
  zero bytes.
\<close>

definition EncryptToString :: "PGPKeyBundle \<Rightarrow> byte list \<Rightarrow> 'g \<Rightarrow> string \<times> error option" where
  "EncryptToString k plaintext sender = ([], Some KeyCannotEncryptError)"

definition DecryptFromString ::
  "PGPKeyBundle \<Rightarrow> string \<Rightarrow> byte list \<times> string \<times> error option" where
  "DecryptFromString k ciphertext = ([], [], Some KeyCannotDecryptError)"

definition CanEncrypt :: "PGPKeyBundle \<Rightarrow> bool" where
  "CanEncrypt k = False"

definition CanDecrypt :: "PGPKeyBundle \<Rightarrow> bool" where
  "CanDecrypt k = False"

definition SecretSymmetricKey :: "PGPKeyBundle \<Rightarrow> string \<Rightarrow> byte list \<times> error option" where
  "SecretSymmetricKey k reason = (replicate 32 0, Some KeyCannotEncryptError)"

section \<open>Claim-side predicates and concrete inputs\<close>

subsection \<open>Predicates on bundles\<close>

text \<open>
  \<open>allPrivateKeysPresent\<close>: the primary key and every subkey have a \<^verbatim>\<open>PrivateKey\<close>
  structure (no nil pointer). \<open>noKeyEncrypted\<close>: no private key of the bundle, where
  there is one, has \<^verbatim>\<open>Encrypted\<close> set. \<open>unencryptedKey\<close>: the subkey has a private
  key structure and it is not encrypted. \<open>opensWith\<close>: the key has a private-key
  structure, and it is in the clear or the passphrase decrypts it without error.
\<close>

definition allPrivateKeysPresent :: "PGPKeyBundle \<Rightarrow> bool" where
  "allPrivateKeysPresent k =
     (PrivateKey (Entity k) \<noteq> None \<and>
      list_all (\<lambda>subkey. Subkey_PrivateKey subkey \<noteq> None) (Subkeys (Entity k)))"

definition encryptedKey :: "packet_PrivateKey option \<Rightarrow> bool" where
  "encryptedKey p = (case p of None \<Rightarrow> False | Some pk \<Rightarrow> Encrypted pk)"

definition noKeyEncrypted :: "PGPKeyBundle \<Rightarrow> bool" where
  "noKeyEncrypted k =
     (\<not> encryptedKey (PrivateKey (Entity k)) \<and>
      list_all (\<lambda>subkey. \<not> encryptedKey (Subkey_PrivateKey subkey)) (Subkeys (Entity k)))"

definition unencryptedKey :: "Subkey \<Rightarrow> bool" where
  "unencryptedKey subkey =
     (case Subkey_PrivateKey subkey of None \<Rightarrow> False | Some pk \<Rightarrow> \<not> Encrypted pk)"

definition opensWith :: "env \<Rightarrow> string \<Rightarrow> packet_PrivateKey option \<Rightarrow> bool" where
  "opensWith ev pw p =
     (case p of
        None \<Rightarrow> False
      | Some pk \<Rightarrow> if Encrypted pk then snd (PrivateKey_Decrypt ev pk pw) = None else True)"

text \<open>
  The grouped display as a function of the digits: a space after every fourth digit
  but the last. It states what the loop of \<^verbatim>\<open>ToQuads\<close> computes.
\<close>

fun quads_of :: "nat \<Rightarrow> string \<Rightarrow> string" where
  "quads_of i [] = []"
| "quads_of i (b # x) =
     (if i mod 4 = 3 \<and> x \<noteq> [] then b # CHR '' '' # quads_of (i + 1) x
      else b # quads_of (i + 1) x)"

subsection \<open>A concrete instance of the collaborators\<close>

text \<open>
  The operations are evaluated on concrete inputs against this instance: a decoder
  that knows three armored texts, a serializer with an 8-byte header, a decryption
  that accepts one passphrase, and a merge that appends identities and subkeys.
\<close>

definition pk_A :: packet_PublicKey where
  "pk_A = \<lparr>Fingerprint = replicate 20 0xAA, PubKeyAlgo = 1, KeyData = [1, 2, 3]\<rparr>"

definition pk_B :: packet_PublicKey where
  "pk_B = \<lparr>Fingerprint = replicate 20 0xBB, PubKeyAlgo = 17, KeyData = [4]\<rparr>"

definition pk_S :: "byte \<Rightarrow> packet_PublicKey" where
  "pk_S n = \<lparr>Fingerprint = replicate 20 n, PubKeyAlgo = 1, KeyData = [n]\<rparr>"

definition sig_binding :: packet_Signature where
  "sig_binding = \<lparr>SigType = 0x18, Hash = 8, IsPrimaryId = None, KeyLifetimeSecs = None,
     CreationTime = 0\<rparr>"

definition sig_revocation :: packet_Signature where
  "sig_revocation = \<lparr>SigType = 0x28, Hash = 8, IsPrimaryId = None, KeyLifetimeSecs = None,
     CreationTime = 1\<rparr>"

definition subkey_1 :: Subkey where
  "subkey_1 = \<lparr>Subkey_PublicKey = pk_S 1, Subkey_PrivateKey = None, Sig = sig_binding,
     Revocation = None\<rparr>"

definition subkey_2 :: Subkey where
  "subkey_2 = \<lparr>Subkey_PublicKey = pk_S 2, Subkey_PrivateKey = None, Sig = sig_binding,
     Revocation = None\<rparr>"

definition subkey_revoked :: Subkey where
  "subkey_revoked = \<lparr>Subkey_PublicKey = pk_S 3, Subkey_PrivateKey = None, Sig = sig_binding,
     Revocation = Some sig_revocation\<rparr>"

definition id_alice :: Identity where
  "id_alice = \<lparr>Name = ''alice'', UserId_Id = None, SelfSignature = None\<rparr>"

definition entity_A1 :: Entity where
  "entity_A1 = \<lparr>PrimaryKey = pk_A, PrivateKey = None, Identities = [''alice'' \<mapsto> id_alice],
     Revocations = [sig_revocation], Subkeys = [subkey_1, subkey_revoked], BadSubkeys = []\<rparr>"

definition entity_A2 :: Entity where
  "entity_A2 = \<lparr>PrimaryKey = pk_A, PrivateKey = None, Identities = Map.empty,
     Revocations = [], Subkeys = [subkey_2], BadSubkeys = []\<rparr>"

definition entity_B :: Entity where
  "entity_B = \<lparr>PrimaryKey = pk_B, PrivateKey = None, Identities = Map.empty,
     Revocations = [], Subkeys = [], BadSubkeys = []\<rparr>"

definition demo_MergeKey :: "PGPKeyBundle \<Rightarrow> PGPKeyBundle \<Rightarrow> PGPKeyBundle" where
  "demo_MergeKey to from =
     to\<lparr>Entity := (Entity to)
        \<lparr>Identities := Identities (Entity to) ++ Identities (Entity from),
         Subkeys := Subkeys (Entity to) @ Subkeys (Entity from)\<rparr>\<rparr>"

definition demo_ReadArmoredKeyRing :: "string \<Rightarrow> Entity list \<times> error option" where
  "demo_ReadArmoredKeyRing s =
     (if s = ''one'' then ([entity_A1], None)
      else if s = ''dup'' then ([entity_A1, entity_A2], None)
      else if s = ''two'' then ([entity_A1, entity_B], None)
      else ([], Some (LibraryError ''no armored data found'')))"

definition demo_Decrypt :: "packet_PrivateKey \<Rightarrow> string \<Rightarrow> packet_PrivateKey \<times> string option" where
  "demo_Decrypt pk pw =
     (if pw = ''right'' then (pk\<lparr>Encrypted := False\<rparr>, None)
      else (pk, Some ''private key checksum failure''))"

definition demo_env :: env where
  "demo_env = \<lparr>
     ReadArmoredKeyRing = demo_ReadArmoredKeyRing,
     PublicKey_Serialize = (\<lambda>pk. replicate 8 0 @ Fingerprint pk @ KeyData pk),
     PrivateKey_Decrypt = demo_Decrypt,
     Entity_Serialize = (\<lambda>e. Inr (Fingerprint (PrimaryKey e))),
     Entity_SerializePrivate = (\<lambda>e reuse. Inr (Fingerprint (PrimaryKey e))),
     armor_Encode = (\<lambda>hdr. None),
     armor_Close = (\<lambda>hdr raw. Inr hdr),
     TrimSpace = (\<lambda>s. s),
     cleanPGPInputRxx_Split = (\<lambda>s. [s]),
     bug8612PrepassRxx_FindStringSubmatch = (\<lambda>s. []),
     Sum256 = (\<lambda>bs. replicate 32 (of_nat (length bs))),
     unicode_ToUpper = (\<lambda>s. s),
     unicode_ToLower = (\<lambda>s. s),
     MergeKey = demo_MergeKey,
     PGPOpenSig = (\<lambda>s. if s = ''sig''
                         then Inr \<lparr>LiteralData = [1, 2, 3], MD_Signature_Hash = 8, SigBody = []\<rparr>
                         else Inl (LibraryError ''bad signature'')),
     ParsedSig_Verify = (\<lambda>ps k. None),
     ParsedSig_ID = (\<lambda>ps. ''id''),
     KeybaseKIDV1 = 1,
     IDSuffixKID = 0x0a,
     VerboseDescription = (\<lambda>k. ''PGP key'')\<rparr>"

text \<open>
  A retry machine that asks for one passphrase (counting the prompt), gets \<open>''right''\<close>
  and calls the unlocker once.
\<close>

definition demo_Run :: "nat KeyUnlocker_Run" where
  "demo_Run tries reason desc unlocker prompts k =
     (case unlocker ''right'' k of
        Inl p \<Rightarrow> Inl p
      | Inr (k', err) \<Rightarrow> Inr (err, k', Suc prompts))"

text \<open>Private keys: one in the clear, one encrypted; and bundles built from them.\<close>

definition priv_clear :: packet_PrivateKey where
  "priv_clear = \<lparr>PrivateKey_PublicKey = pk_A, Encrypted = False, PrivateKey_material = Some [7]\<rparr>"

definition priv_locked :: packet_PrivateKey where
  "priv_locked = \<lparr>PrivateKey_PublicKey = pk_A, Encrypted = True, PrivateKey_material = None\<rparr>"

definition bundle_public :: PGPKeyBundle where
  "bundle_public = NewPGPKeyBundle entity_B"

definition bundle_clear :: PGPKeyBundle where
  "bundle_clear = NewPGPKeyBundle
     (entity_A2\<lparr>PrivateKey := Some priv_clear,
        Subkeys := [subkey_2\<lparr>Subkey_PrivateKey := Some priv_clear\<rparr>]\<rparr>)"

definition bundle_locked_stub :: PGPKeyBundle where
  "bundle_locked_stub = NewPGPKeyBundle (entity_A2\<lparr>PrivateKey := Some priv_locked\<rparr>)"

definition bundle_clear_stub :: PGPKeyBundle where
  "bundle_clear_stub = NewPGPKeyBundle (entity_A2\<lparr>PrivateKey := Some priv_clear\<rparr>)"

text \<open>
  A bundle read from the text \<open>''one''\<close> (which caches the text) and then merged with a
  second entity of the same primary key.
\<close>

definition bundle_merged_after_read :: PGPKeyBundle where
  "bundle_merged_after_read =
     demo_MergeKey ((NewPGPKeyBundle entity_A1)\<lparr>ArmoredPublicKey := ''one''\<rparr>)
       (NewPGPKeyBundle entity_A2)"

definition fp_example :: PGPFingerprint where
  "fp_example = [0x01, 0x23, 0x45, 0x67, 0x89, 0xab, 0xcd, 0xef, 0, 1, 2, 3, 4, 5, 6, 7, 8, 9,
     10, 255]"

section \<open>Lemmas\<close>

subsection \<open>Hex digits and the grouped display\<close>

lemma nibble_cases:
  "d < 16 \<Longrightarrow> d = 15 \<or> d = 14 \<or> d = 13 \<or> d = 12 \<or> d = 11 \<or> d = 10 \<or> d = 9 \<or> d = 8
     \<or> d = 7 \<or> d = 6 \<or> d = 5 \<or> d = 4 \<or> d = 3 \<or> d = 2 \<or> d = 1 \<or> d = (0::nat)"
  by arith

lemma fromHexChar_hextable:
  assumes "n < 16"
  shows "fromHexChar (hextable ! n) = Some (of_nat n)"
  using nibble_cases [OF assms]
  by (auto simp: hextable_def fromHexChar_def)

lemma asciiUpper_hextable:
  assumes "n < 16"
  shows "fromHexChar (asciiUpper (hextable ! n)) = Some (of_nat n)"
    and "asciiUpper (hextable ! n) \<noteq> CHR '' ''"
    and "(of_char (hextable ! n) :: nat) < 128"
  using nibble_cases [OF assms]
  by (auto simp: hextable_def fromHexChar_def asciiUpper_def char_of_def bit_Suc_0_iff)

lemma hi_nibble_lt: "unat (drop_bit 4 (v :: byte)) < 16"
proof -
  have "unat v < 256" using unsigned_less [of v, where 'a = nat] by simp
  then show ?thesis by (simp add: unat_drop_bit_eq drop_bit_eq_div unat_div)
qed

lemma lo_nibble_lt: "unat ((v :: byte) AND 0x0f) < 16"
proof -
  have "v AND 0x0f = take_bit 4 v"
    by (simp add: take_bit_eq_mask mask_eq_exp_minus_1)
  then have "unat (v AND 0x0f) = take_bit 4 (unat v)"
    by (simp add: unsigned_take_bit_eq)
  also have "\<dots> < 2 ^ 4"
    by (rule take_bit_nat_less_exp)
  finally show ?thesis by simp
qed

lemma nibbles_join: "push_bit 4 (drop_bit 4 v) OR (v AND 0x0f) = (v :: byte)"
proof -
  have m: "v AND 0x0f = take_bit 4 v"
    by (simp add: take_bit_eq_mask mask_eq_exp_minus_1)
  show ?thesis
    unfolding m
    by (rule bit_word_eqI) (auto simp: bit_or_iff bit_push_bit_iff bit_drop_bit_eq bit_take_bit_iff)
qed

lemma hex_roundtrip: "hex_Decode (hex_EncodeToString bs) = Inr bs"
  by (induction bs)
     (simp_all add: fromHexChar_hextable hi_nibble_lt lo_nibble_lt nibbles_join)


lemma len_hex: "length (hex_EncodeToString bs) = 2 * length bs"
  by (induction bs) simp_all

lemma fromhex_string:
  assumes "length fp = 20"
  shows "PGPFingerprintFromHex (String fp) = Inr fp"
  using assms by (simp add: PGPFingerprintFromHex_def DecodeHexFixed_def String_def
      PGPFingerprintLen_def len_hex hex_roundtrip)

lemma isASCII_hex: "isASCII (hex_EncodeToString bs)"
  by (induction bs) (simp_all add: isASCII_def asciiUpper_hextable hi_nibble_lt lo_nibble_lt)

lemma hex_upper_roundtrip: "hex_Decode (map asciiUpper (hex_EncodeToString bs)) = Inr bs"
  by (induction bs)
     (simp_all add: asciiUpper_hextable hi_nibble_lt lo_nibble_lt nibbles_join)

lemma hex_upper_nospace: "list_all (\<lambda>c. c \<noteq> CHR '' '') (map asciiUpper (hex_EncodeToString bs))"
  by (induction bs) (simp_all add: asciiUpper_hextable hi_nibble_lt lo_nibble_lt)

lemma length_quads_of:
  "x \<noteq> [] \<Longrightarrow> length (quads_of i x) + i div 4 = length x + (i + length x - 1) div 4"
proof (induction x arbitrary: i)
  case Nil then show ?case by simp
next
  case (Cons b x)
  have d: "(i + 1) div 4 = i div 4 + (if i mod 4 = 3 then 1 else 0)"
    by presburger
  show ?case
  proof (cases "x = []")
    case True then show ?thesis by simp
  next
    case False
    have ih: "length (quads_of (i + 1) x) + (i + 1) div 4 = length x + (i + length x) div 4"
      using Cons.IH [OF False, of "i + 1"] by simp
    show ?thesis
    proof (cases "i mod 4 = 3")
      case True
      with ih d False show ?thesis by simp
    next
      case f: False
      with ih d False show ?thesis by simp
    qed
  qed
qed

lemma filter_quads_of:
  "list_all (\<lambda>c. c \<noteq> CHR '' '') x \<Longrightarrow> filter (\<lambda>c. c \<noteq> CHR '' '') (quads_of i x) = x"
  by (induction x arbitrary: i) auto

lemma take_update_snoc: "j < length ret \<Longrightarrow> take (Suc j) (ret[j := b]) = take j ret @ [b]"
  by (simp add: take_Suc_conv_app_nth)

lemma take_update_snoc2:
  assumes "Suc j < length ret"
  shows "take (Suc (Suc j)) (ret[j := b, Suc j := c]) = take j ret @ [b, c]"
proof -
  have "take (Suc (Suc j)) (ret[j := b, Suc j := c]) = take (Suc j) (ret[j := b]) @ [c]"
    using assms by (simp add: take_Suc_conv_app_nth [of "Suc j"])
  also have "take (Suc j) (ret[j := b]) = take j ret @ [b]"
    using assms by (simp add: take_update_snoc)
  finally show ?thesis by simp
qed

lemma loop_quads_of:
  "length ret = totlen \<Longrightarrow> j + length (quads_of i x) = totlen \<Longrightarrow>
   ToQuads_loop totlen i j x ret = Inr (take j ret @ quads_of i x)"
proof (induction x arbitrary: i j ret)
  case Nil
  then show ?case by simp
next
  case (Cons b x)
  show ?case
  proof (cases "i mod 4 = 3 \<and> x \<noteq> []")
    case True
    then have sp: "quads_of i (b # x) = b # CHR '' '' # quads_of (i + 1) x" by simp
    from Cons.prems sp have len: "j + 2 + length (quads_of (i + 1) x) = totlen" by simp
    then have j1: "j + 1 < totlen" by simp
    have ih: "ToQuads_loop totlen (i + 1) (j + 2) x (ret[j := b, j + 1 := CHR '' ''])
              = Inr (take (j + 2) (ret[j := b, j + 1 := CHR '' '']) @ quads_of (i + 1) x)"
      using Cons.prems(1) len by (intro Cons.IH) simp_all
    show ?thesis
      using True Cons.prems(1) j1 ih sp
      by (simp add: take_update_snoc2 del: quads_of.simps)
  next
    case False
    then have sp: "quads_of i (b # x) = b # quads_of (i + 1) x" by auto
    from Cons.prems sp have len: "j + 1 + length (quads_of (i + 1) x) = totlen" by simp
    then have j0: "j < totlen" by simp
    have br: "\<not> (i mod 4 = 3 \<and> j + 1 < totlen)"
    proof
      assume h: "i mod 4 = 3 \<and> j + 1 < totlen"
      with False have "x = []" by simp
      with len h show False by simp
    qed
    have ih: "ToQuads_loop totlen (i + 1) (j + 1) x (ret[j := b])
              = Inr (take (j + 1) (ret[j := b]) @ quads_of (i + 1) x)"
      using Cons.prems(1) len by (intro Cons.IH) simp_all
    show ?thesis
      using br Cons.prems(1) j0 ih sp
      by (auto simp add: take_update_snoc simp del: quads_of.simps)
  qed
qed

lemma ToQuads_quads_of:
  assumes "length fp = 20"
  shows "ToQuads ev fp = Inr (quads_of 0 (map asciiUpper (hex_EncodeToString fp)))"
proof -
  let ?x = "map asciiUpper (hex_EncodeToString fp)"
  have lx: "length ?x = 40" using assms by (simp add: len_hex)
  have ne: "?x \<noteq> []" using lx by auto
  have ls: "length (quads_of 0 ?x) = 49"
    using length_quads_of [OF ne, of 0] lx by simp
  have up: "ToUpper ev (String fp) = ?x"
    by (simp add: ToUpper_def String_def isASCII_hex)
  have "ToQuads_loop 49 0 0 ?x (replicate 49 (CHR 0x00)) = Inr (take 0 (replicate 49 (CHR 0x00)) @ quads_of 0 ?x)"
    by (rule loop_quads_of) (simp_all add: ls)
  then show ?thesis
    using assms by (simp add: ToQuads_def up len_hex Let_def)
qed


lemma quads_len:
  assumes "length fp = 20"
  shows "ToQuads ev fp = Inr s \<Longrightarrow> length s = 49"
proof -
  let ?x = "map asciiUpper (hex_EncodeToString fp)"
  have lx: "length ?x = 40" using assms by (simp add: len_hex)
  then have ne: "?x \<noteq> []" by auto
  have "length (quads_of 0 ?x) = 49" using length_quads_of [OF ne, of 0] lx by simp
  then show "ToQuads ev fp = Inr s \<Longrightarrow> length s = 49"
    by (auto simp: ToQuads_quads_of [OF assms])
qed

subsection \<open>Merging, unlocking\<close>

lemma mergeKeysIfPossible_loop_frame:
  assumes frame: "\<And>to from. Fingerprint (PrimaryKey (Entity (MergeKey ev to from)))
                    = Fingerprint (PrimaryKey (Entity to))"
  shows "mergeKeysIfPossible_loop ev n out lst =
           (foldl (\<lambda>out e. MergeKey ev out (NewPGPKeyBundle e)) out
              (takeWhile (\<lambda>e. Fingerprint (PrimaryKey e) = Fingerprint (PrimaryKey (Entity out))) lst),
            if list_all (\<lambda>e. Fingerprint (PrimaryKey e) = Fingerprint (PrimaryKey (Entity out))) lst
            then None else Some (TooManyKeysError (n + 1)))"
proof (induction lst arbitrary: out)
  case Nil
  show ?case by simp
next
  case (Cons e es)
  show ?case
  proof (cases "Fingerprint (PrimaryKey e) = Fingerprint (PrimaryKey (Entity out))")
    case True
    then show ?thesis
      by (simp add: Cons.IH frame SamePrimaryAs_def FastByteArrayEq_def NewPGPKeyBundle_def)
  next
    case False
    then show ?thesis
      by (auto simp: SamePrimaryAs_def FastByteArrayEq_def NewPGPKeyBundle_def)
  qed
qed

lemma demo_frame:
  "Fingerprint (PrimaryKey (Entity (MergeKey demo_env to from))) = Fingerprint (PrimaryKey (Entity to))"
  by (simp add: demo_env_def demo_MergeKey_def)

lemma scan_subkeys_present:
  "list_all (\<lambda>subkey. Subkey_PrivateKey subkey \<noteq> None) sks \<Longrightarrow>
   isAnyKeyEncrypted_subkeys sks = Inr (list_ex (\<lambda>subkey. encryptedKey (Subkey_PrivateKey subkey)) sks)"
  by (induction sks) (auto simp: encryptedKey_def)

lemma scan_present:
  assumes "allPrivateKeysPresent k"
  shows "isAnyKeyEncrypted k = Inr (\<not> noKeyEncrypted k)"
proof -
  from assms obtain pk where pk: "PrivateKey (Entity k) = Some pk"
    by (auto simp: allPrivateKeysPresent_def)
  from assms have sks: "list_all (\<lambda>subkey. Subkey_PrivateKey subkey \<noteq> None) (Subkeys (Entity k))"
    by (simp add: allPrivateKeysPresent_def)
  show ?thesis
    by (simp add: isAnyKeyEncrypted_def pk scan_subkeys_present [OF sks] noKeyEncrypted_def
        encryptedKey_def list_ex_iff list_all_iff)
qed

lemma unlockPrivateKey_present: "\<exists>r. unlockPrivateKey ev (Some pk) pw = Inr r"
  by (simp add: unlockPrivateKey_def split: prod.splits option.splits)

lemma scan_subkeys_nil_iff:
  "isAnyKeyEncrypted_subkeys sks = Inl NilPointerDereference \<longleftrightarrow>
   (\<exists>pre subkey post. sks = pre @ subkey # post \<and> list_all unencryptedKey pre
        \<and> Subkey_PrivateKey subkey = None)"
proof (induction sks)
  case Nil
  show ?case by simp
next
  case (Cons sk sks)
  show ?case
  proof (cases "Subkey_PrivateKey sk")
    case None
    have "sk # sks = [] @ sk # sks \<and> list_all unencryptedKey [] \<and> Subkey_PrivateKey sk = None"
      using None by simp
    then have "\<exists>pre subkey post. sk # sks = pre @ subkey # post \<and> list_all unencryptedKey pre
        \<and> Subkey_PrivateKey subkey = None" by blast
    then show ?thesis using None by simp
  next
    case (Some pk)
    show ?thesis
    proof (cases "Encrypted pk")
      case True
      have "\<not> (\<exists>pre subkey post. sk # sks = pre @ subkey # post \<and> list_all unencryptedKey pre
        \<and> Subkey_PrivateKey subkey = None)"
      proof
        assume "\<exists>pre subkey post. sk # sks = pre @ subkey # post \<and> list_all unencryptedKey pre
        \<and> Subkey_PrivateKey subkey = None"
        then obtain pre subkey post where h: "sk # sks = pre @ subkey # post"
          "list_all unencryptedKey pre" "Subkey_PrivateKey subkey = None" by blast
        show False
        proof (cases pre)
          case Nil
          with h Some show False by simp
        next
          case (Cons a as)
          with h have "a = sk" "unencryptedKey a" by simp_all
          with Some True show False by (simp add: unencryptedKey_def)
        qed
      qed
      then show ?thesis using Some True by simp
    next
      case False
      have u: "unencryptedKey sk" using Some False by (simp add: unencryptedKey_def)
      have "(\<exists>pre subkey post. sk # sks = pre @ subkey # post \<and> list_all unencryptedKey pre
        \<and> Subkey_PrivateKey subkey = None) \<longleftrightarrow>
        (\<exists>pre subkey post. sks = pre @ subkey # post \<and> list_all unencryptedKey pre
        \<and> Subkey_PrivateKey subkey = None)" (is "?L \<longleftrightarrow> ?R")
      proof
        assume ?L
        then obtain pre subkey post where h: "sk # sks = pre @ subkey # post"
          "list_all unencryptedKey pre" "Subkey_PrivateKey subkey = None" by blast
        show ?R
        proof (cases pre)
          case Nil
          with h Some show ?thesis by simp
        next
          case (Cons a as)
          with h have "sks = as @ subkey # post" "list_all unencryptedKey as" by simp_all
          with h(3) show ?thesis by blast
        qed
      next
        assume ?R
        then obtain pre subkey post where h: "sks = pre @ subkey # post"
          "list_all unencryptedKey pre" "Subkey_PrivateKey subkey = None" by blast
        then have "sk # sks = (sk # pre) @ subkey # post" "list_all unencryptedKey (sk # pre)"
          using u by simp_all
        with h(3) show ?L by blast
      qed
      then show ?thesis using Some False Cons.IH by simp
    qed
  qed
qed


lemma scan_nil_iff:
  "isAnyKeyEncrypted k = Inl NilPointerDereference \<longleftrightarrow>
   PrivateKey (Entity k) = None \<or>
   (\<not> encryptedKey (PrivateKey (Entity k)) \<and>
    (\<exists>pre subkey post. Subkeys (Entity k) = pre @ subkey # post \<and> list_all unencryptedKey pre
        \<and> Subkey_PrivateKey subkey = None))"
  by (cases "PrivateKey (Entity k)")
     (simp_all add: isAnyKeyEncrypted_def encryptedKey_def scan_subkeys_nil_iff)

lemma scan_subkeys_panic_is_nil:
  "isAnyKeyEncrypted_subkeys sks = Inl p \<Longrightarrow> p = NilPointerDereference"
  by (induction sks) (auto split: option.splits if_splits)

lemma scan_subkeys_false_present:
  "isAnyKeyEncrypted_subkeys sks = Inr False \<Longrightarrow>
   list_all (\<lambda>subkey. Subkey_PrivateKey subkey \<noteq> None) sks"
  by (induction sks) (auto split: option.splits if_splits)

lemma scan_otherwise_true:
  assumes v: "\<not> allPrivateKeysPresent k"
    and n: "isAnyKeyEncrypted k \<noteq> Inl NilPointerDereference"
  shows "isAnyKeyEncrypted k = Inr True"
proof (cases "PrivateKey (Entity k)")
  case None
  with n show ?thesis by (simp add: isAnyKeyEncrypted_def)
next
  case (Some pk)
  show ?thesis
  proof (cases "Encrypted pk")
    case True
    with Some show ?thesis by (simp add: isAnyKeyEncrypted_def)
  next
    case False
    with Some have e: "isAnyKeyEncrypted k = isAnyKeyEncrypted_subkeys (Subkeys (Entity k))"
      by (simp add: isAnyKeyEncrypted_def)
    from v Some have m: "\<not> list_all (\<lambda>subkey. Subkey_PrivateKey subkey \<noteq> None) (Subkeys (Entity k))"
      by (simp add: allPrivateKeysPresent_def)
    show ?thesis
    proof (cases "isAnyKeyEncrypted_subkeys (Subkeys (Entity k))")
      case (Inl p)
      with scan_subkeys_panic_is_nil [OF Inl] n e show ?thesis by simp
    next
      case (Inr b)
      with m scan_subkeys_false_present [of "Subkeys (Entity k)"] have "b" by (cases b) auto
      with Inr e show ?thesis by simp
    qed
  qed
qed

lemma unlockPrivateKey_opens:
  "opensWith ev pw (Some pk) \<Longrightarrow> \<exists>pk'. unlockPrivateKey ev (Some pk) pw = Inr (pk', None)"
  by (cases "PrivateKey_Decrypt ev pk pw")
     (auto simp: opensWith_def unlockPrivateKey_def split: if_splits)

lemma unlockPrivateKey_fails:
  "\<not> opensWith ev pw (Some pk) \<Longrightarrow> \<exists>pk' e. unlockPrivateKey ev (Some pk) pw = Inr (pk', Some e)"
  by (cases "PrivateKey_Decrypt ev pk pw")
     (auto simp: opensWith_def unlockPrivateKey_def split: if_splits)

lemma unlock_subkeys_nil_iff:
  "unlockAllPrivateKeys_subkeys ev pw sks = Inl NilPointerDereference \<longleftrightarrow>
   (\<exists>pre subkey post. sks = pre @ subkey # post
        \<and> list_all (\<lambda>s. opensWith ev pw (Subkey_PrivateKey s)) pre
        \<and> Subkey_PrivateKey subkey = None)"
  (is "?L sks \<longleftrightarrow> ?R sks")
proof (induction sks)
  case Nil
  show ?case by simp
next
  case (Cons sk sks)
  show ?case
  proof (cases "Subkey_PrivateKey sk")
    case None
    have "sk # sks = [] @ sk # sks
        \<and> list_all (\<lambda>s. opensWith ev pw (Subkey_PrivateKey s)) []
        \<and> Subkey_PrivateKey sk = None"
      using None by simp
    then have "?R (sk # sks)" by blast
    then show ?thesis using None by (simp add: unlockPrivateKey_def)
  next
    case (Some pk)
    have shift: "?R (sk # sks) \<longleftrightarrow> opensWith ev pw (Some pk) \<and> ?R sks"
    proof
      assume "?R (sk # sks)"
      then obtain pre subkey post where h: "sk # sks = pre @ subkey # post"
        "list_all (\<lambda>s. opensWith ev pw (Subkey_PrivateKey s)) pre"
        "Subkey_PrivateKey subkey = None" by blast
      show "opensWith ev pw (Some pk) \<and> ?R sks"
      proof (cases pre)
        case Nil
        with h Some show ?thesis by simp
      next
        case (Cons a as)
        with h have "a = sk" "sks = as @ subkey # post"
          "list_all (\<lambda>s. opensWith ev pw (Subkey_PrivateKey s)) as"
          "opensWith ev pw (Subkey_PrivateKey a)" by simp_all
        with h(3) Some show ?thesis by auto
      qed
    next
      assume a: "opensWith ev pw (Some pk) \<and> ?R sks"
      then obtain pre subkey post where h: "sks = pre @ subkey # post"
        "list_all (\<lambda>s. opensWith ev pw (Subkey_PrivateKey s)) pre"
        "Subkey_PrivateKey subkey = None" by blast
      have "sk # sks = (sk # pre) @ subkey # post"
        "list_all (\<lambda>s. opensWith ev pw (Subkey_PrivateKey s)) (sk # pre)"
        using h a Some by simp_all
      with h(3) show "?R (sk # sks)" by blast
    qed
    show ?thesis
    proof (cases "opensWith ev pw (Some pk)")
      case True
      then obtain pk' where u: "unlockPrivateKey ev (Some pk) pw = Inr (pk', None)"
        using unlockPrivateKey_opens by blast
      have "?L (sk # sks) \<longleftrightarrow> ?L sks"
        by (simp add: Some u split: sum.splits prod.splits)
      with Cons.IH shift True show ?thesis by simp
    next
      case False
      then obtain pk' e where u: "unlockPrivateKey ev (Some pk) pw = Inr (pk', Some e)"
        using unlockPrivateKey_fails by blast
      have "\<not> ?L (sk # sks)" by (simp add: Some u)
      with shift False show ?thesis by simp
    qed
  qed
qed

lemma unlockAll_nil_iff:
  "unlockAllPrivateKeys ev k pw = Inl NilPointerDereference \<longleftrightarrow>
   PrivateKey (Entity k) = None \<or>
   (opensWith ev pw (PrivateKey (Entity k)) \<and>
    (\<exists>pre subkey post. Subkeys (Entity k) = pre @ subkey # post
        \<and> list_all (\<lambda>s. opensWith ev pw (Subkey_PrivateKey s)) pre
        \<and> Subkey_PrivateKey subkey = None))"
proof (cases "PrivateKey (Entity k)")
  case None
  then show ?thesis by (simp add: unlockAllPrivateKeys_def unlockPrivateKey_def)
next
  case (Some pk)
  show ?thesis
  proof (cases "opensWith ev pw (Some pk)")
    case True
    then obtain pk' where u: "unlockPrivateKey ev (Some pk) pw = Inr (pk', None)"
      using unlockPrivateKey_opens by blast
    have "unlockAllPrivateKeys ev k pw = Inl NilPointerDereference \<longleftrightarrow>
          unlockAllPrivateKeys_subkeys ev pw (Subkeys (Entity k)) = Inl NilPointerDereference"
      by (simp add: unlockAllPrivateKeys_def Some u split: sum.splits prod.splits)
    then show ?thesis using True Some by (simp add: unlock_subkeys_nil_iff)
  next
    case False
    then obtain pk' e where u: "unlockPrivateKey ev (Some pk) pw = Inr (pk', Some e)"
      using unlockPrivateKey_fails by blast
    have "unlockAllPrivateKeys ev k pw \<noteq> Inl NilPointerDereference"
      by (simp add: unlockAllPrivateKeys_def Some u)
    then show ?thesis using False Some by simp
  qed
qed

lemma unlock_subkeys_keeps_present:
  "list_all (\<lambda>subkey. Subkey_PrivateKey subkey \<noteq> None) sks \<Longrightarrow>
   \<exists>sks' e. unlockAllPrivateKeys_subkeys ev pw sks = Inr (sks', e)
      \<and> list_all (\<lambda>subkey. Subkey_PrivateKey subkey \<noteq> None) sks'"
proof (induction sks)
  case Nil
  then show ?case by simp
next
  case (Cons sk sks)
  then obtain pk where pk: "Subkey_PrivateKey sk = Some pk" by auto
  obtain pk' e where u: "unlockPrivateKey ev (Some pk) pw = Inr (pk', e)"
    using unlockPrivateKey_present [of ev pk pw] by auto
  from Cons obtain sks' e' where r: "unlockAllPrivateKeys_subkeys ev pw sks = Inr (sks', e')"
    "list_all (\<lambda>subkey. Subkey_PrivateKey subkey \<noteq> None) sks'" by auto
  from Cons.prems have rest: "list_all (\<lambda>subkey. Subkey_PrivateKey subkey \<noteq> None) sks" by simp
  show ?case
    using r(2) rest by (cases e) (simp_all add: pk u r(1))
qed

lemma unlockAll_keeps_present:
  assumes "allPrivateKeysPresent k"
  shows "\<exists>k' e. unlockAllPrivateKeys ev k pw = Inr (k', e) \<and> allPrivateKeysPresent k'"
proof -
  from assms obtain pk where pk: "PrivateKey (Entity k) = Some pk"
    by (auto simp: allPrivateKeysPresent_def)
  from assms have sks: "list_all (\<lambda>subkey. Subkey_PrivateKey subkey \<noteq> None) (Subkeys (Entity k))"
    by (simp add: allPrivateKeysPresent_def)
  obtain pk' e where u: "unlockPrivateKey ev (Some pk) pw = Inr (pk', e)"
    using unlockPrivateKey_present [of ev pk pw] by auto
  obtain sks' e' where r: "unlockAllPrivateKeys_subkeys ev pw (Subkeys (Entity k)) = Inr (sks', e')"
    "list_all (\<lambda>subkey. Subkey_PrivateKey subkey \<noteq> None) sks'"
    using unlock_subkeys_keeps_present [OF sks] by blast
  show ?thesis
    using r(2) sks
    by (cases e) (simp_all add: unlockAllPrivateKeys_def pk u r(1) allPrivateKeysPresent_def)
qed

lemma demo_extract:
  "VerifyStringAndExtract demo_env bundle_public ''sig''
     = ([1, 2, 3], \<lparr>SigID = ''id'', WeakDigest = None\<rparr>, None)"
  by (simp add: VerifyStringAndExtract_def demo_env_def crypto_SHA1_def)

lemma demo_read_one:
  "ReadOneKeyFromString demo_env ''one''
     = (Some ((NewPGPKeyBundle entity_A1)\<lparr>ArmoredPublicKey := ''one''\<rparr>), [], None)"
  by (simp add: ReadOneKeyFromString_def readOneKeyFromString_def cleanPGPInput_def
      demo_env_def demo_ReadArmoredKeyRing_def finishReadOne_def NewPGPKeyBundle_def entity_A1_def)

section \<open>The claims\<close>

subsection \<open>C1: the cached armored form\<close>

text \<open>
  Claim C1. An armored ingestion (\<open>readOneKeyFromString\<close>, strict or liberal) that
  succeeds with a bundle whose entity has no private key stores the original input
  text, not the cleaned text, in \<open>ArmoredPublicKey\<close>; \<open>Encode\<close> then returns exactly that
  text, without serializing, and leaves the bundle as it is, so every later \<open>Encode\<close>
  returns it again. The second part is for an input text that is not empty: Go's
  \<open>Encode\<close> reads the empty string as "nothing cached", and the decoder accepts no
  text without an armor block.
\<close>

theorem C1_cached_armor_is_input:
  assumes "readOneKeyFromString ev originalArmor liberal = (Some b, w, None)"
    and "PrivateKey (Entity b) = None"
  shows "ArmoredPublicKey b = originalArmor
         \<and> (originalArmor \<noteq> [] \<longrightarrow> Encode ev b = (originalArmor, None, b))"
proof -
  have a: "ArmoredPublicKey b = originalArmor"
    using assms
    by (auto simp: readOneKeyFromString_def finishReadOne_def Let_def
        split: prod.splits option.splits list.splits if_splits)
  then show ?thesis by (simp add: Encode_def)
qed

theorem C1_cached_armor_is_input_witness:
  "readOneKeyFromString demo_env ''one'' True
     = (Some ((NewPGPKeyBundle entity_A1)\<lparr>ArmoredPublicKey := ''one''\<rparr>), [], None)
   \<and> Encode demo_env ((NewPGPKeyBundle entity_A1)\<lparr>ArmoredPublicKey := ''one''\<rparr>)
       = (''one'', None, (NewPGPKeyBundle entity_A1)\<lparr>ArmoredPublicKey := ''one''\<rparr>)"
proof -
  have r: "readOneKeyFromString demo_env ''one'' True
     = (Some ((NewPGPKeyBundle entity_A1)\<lparr>ArmoredPublicKey := ''one''\<rparr>), [], None)"
    by (simp add: readOneKeyFromString_def cleanPGPInput_def bug8612Prepass_def
        demo_env_def demo_ReadArmoredKeyRing_def finishReadOne_def NewPGPKeyBundle_def
        entity_A1_def)
  have p: "PrivateKey (Entity ((NewPGPKeyBundle entity_A1)\<lparr>ArmoredPublicKey := ''one''\<rparr>)) = None"
    by (simp add: NewPGPKeyBundle_def entity_A1_def)
  from r C1_cached_armor_is_input [OF r p] show ?thesis by simp
qed

subsection \<open>C2: merge or reject\<close>

text \<open>
  Claim C2. For a decoded list \<open>lst = e0 # rest\<close> of more than one entity, the merge
  succeeds exactly when every entity of \<open>rest\<close> has the primary-key fingerprint of
  \<open>e0\<close>; it then folds each entity of \<open>rest\<close> into the first with \<open>MergeKey\<close>, and
  \<open>finishReadOne\<close> returns the merged bundle. On any mismatch the merge stops with
  \<open>TooManyKeysError (length lst)\<close>, and \<open>finishReadOne\<close> returns no bundle and that
  error. \<open>MergeKey\<close> is defined in another file: the theorem holds for every \<open>MergeKey\<close>
  that leaves the receiver's primary key as it is.
\<close>

theorem C2_merge_iff_same_fingerprint:
  assumes frame: "\<And>to from. Fingerprint (PrimaryKey (Entity (MergeKey ev to from)))
                    = Fingerprint (PrimaryKey (Entity to))"
    and lst: "lst = e0 # rest" and n: "1 < length lst"
  shows "mergeKeysIfPossible ev (NewPGPKeyBundle e0) rest =
           (foldl (\<lambda>out e. MergeKey ev out (NewPGPKeyBundle e)) (NewPGPKeyBundle e0)
              (takeWhile (\<lambda>e. Fingerprint (PrimaryKey e) = Fingerprint (PrimaryKey e0)) rest),
            if list_all (\<lambda>e. Fingerprint (PrimaryKey e) = Fingerprint (PrimaryKey e0)) rest
            then None else Some (TooManyKeysError (length lst)))
         \<and> finishReadOne ev lst armored None =
           (if list_all (\<lambda>e. Fingerprint (PrimaryKey e) = Fingerprint (PrimaryKey e0)) rest
            then
              (let first = foldl (\<lambda>out e. MergeKey ev out (NewPGPKeyBundle e)) (NewPGPKeyBundle e0) rest
               in (Some (if PrivateKey (Entity first) = None
                         then first\<lparr>ArmoredPublicKey := armored\<rparr> else first),
                   map (\<lambda>bs. ''Bad subkey: '' @ Err bs) (BadSubkeys (Entity first)), None))
            else (None, [], Some (TooManyKeysError (length lst))))"
proof -
  let ?same = "\<lambda>e. Fingerprint (PrimaryKey e) = Fingerprint (PrimaryKey e0)"
  have e0: "Fingerprint (PrimaryKey (Entity (NewPGPKeyBundle e0))) = Fingerprint (PrimaryKey e0)"
    by (simp add: NewPGPKeyBundle_def)
  have m: "mergeKeysIfPossible ev (NewPGPKeyBundle e0) rest =
           (foldl (\<lambda>out e. MergeKey ev out (NewPGPKeyBundle e)) (NewPGPKeyBundle e0)
              (takeWhile ?same rest),
            if list_all ?same rest then None else Some (TooManyKeysError (length lst)))"
    unfolding mergeKeysIfPossible_def mergeKeysIfPossible_loop_frame [OF frame] e0
    using lst by simp
  have tw: "list_all ?same rest \<Longrightarrow> takeWhile ?same rest = rest"
    by (simp add: list_all_iff)
  have f: "finishReadOne ev lst armored None =
           (if list_all ?same rest
            then
              (let first = foldl (\<lambda>out e. MergeKey ev out (NewPGPKeyBundle e)) (NewPGPKeyBundle e0) rest
               in (Some (if PrivateKey (Entity first) = None
                         then first\<lparr>ArmoredPublicKey := armored\<rparr> else first),
                   map (\<lambda>bs. ''Bad subkey: '' @ Err bs) (BadSubkeys (Entity first)), None))
            else (None, [], Some (TooManyKeysError (length lst))))"
    using n lst by (simp add: finishReadOne_def m tw Let_def)
  from m f show ?thesis by simp
qed

theorem C2_merge_iff_same_fingerprint_witness:
  "finishReadOne demo_env [entity_A1, entity_A2] ''dup'' None =
     (Some ((demo_MergeKey (NewPGPKeyBundle entity_A1) (NewPGPKeyBundle entity_A2))
             \<lparr>ArmoredPublicKey := ''dup''\<rparr>), [], None)
   \<and> Subkeys (Entity (demo_MergeKey (NewPGPKeyBundle entity_A1) (NewPGPKeyBundle entity_A2)))
       = [subkey_1, subkey_revoked, subkey_2]
   \<and> finishReadOne demo_env [entity_A1, entity_B] ''two'' None =
     (None, [], Some (TooManyKeysError 2))
   \<and> finishReadOne demo_env [entity_A1, entity_A2, entity_B] ''three'' None =
     (None, [], Some (TooManyKeysError 3))"
proof -
  have fpA: "Fingerprint (PrimaryKey entity_A2) = Fingerprint (PrimaryKey entity_A1)"
    by (simp add: entity_A1_def entity_A2_def)
  have fpB: "Fingerprint (PrimaryKey entity_B) \<noteq> Fingerprint (PrimaryKey entity_A1)"
    by (simp add: entity_A1_def entity_B_def pk_A_def pk_B_def)
  have mk: "MergeKey demo_env = demo_MergeKey" by (simp add: demo_env_def)
  have ent: "Entity (demo_MergeKey (NewPGPKeyBundle entity_A1) (NewPGPKeyBundle entity_A2))
      = entity_A1\<lparr>Identities := Identities entity_A1 ++ Identities entity_A2,
                   Subkeys := Subkeys entity_A1 @ Subkeys entity_A2\<rparr>"
    by (simp add: demo_MergeKey_def NewPGPKeyBundle_def)
  have 1: "finishReadOne demo_env [entity_A1, entity_A2] ''dup'' None =
     (Some ((demo_MergeKey (NewPGPKeyBundle entity_A1) (NewPGPKeyBundle entity_A2))
             \<lparr>ArmoredPublicKey := ''dup''\<rparr>), [], None)"
    using C2_merge_iff_same_fingerprint [of demo_env "[entity_A1, entity_A2]" entity_A1
        "[entity_A2]" "''dup''", OF demo_frame]
    by (simp add: fpA mk ent) (simp add: entity_A1_def)
  have 2: "finishReadOne demo_env [entity_A1, entity_B] ''two'' None =
     (None, [], Some (TooManyKeysError 2))"
    using C2_merge_iff_same_fingerprint [of demo_env "[entity_A1, entity_B]" entity_A1
        "[entity_B]" "''two''", OF demo_frame]
    by (simp add: fpB)
  have 3: "finishReadOne demo_env [entity_A1, entity_A2, entity_B] ''three'' None =
     (None, [], Some (TooManyKeysError 3))"
    using C2_merge_iff_same_fingerprint [of demo_env "[entity_A1, entity_A2, entity_B]" entity_A1
        "[entity_A2, entity_B]" "''three''", OF demo_frame]
    by (simp add: fpA fpB)
  have 4: "Subkeys (Entity (demo_MergeKey (NewPGPKeyBundle entity_A1) (NewPGPKeyBundle entity_A2)))
       = [subkey_1, subkey_revoked, subkey_2]"
    by (simp add: ent) (simp add: entity_A1_def entity_A2_def)
  from 1 2 3 4 show ?thesis by simp
qed

subsection \<open>C3: the binary key identifier\<close>

text \<open>
  Claim C3. \<open>GetBinaryKID\<close> is the version byte, the public-key algorithm byte, the
  SHA-256 digest of the serialized primary public key without its header, and the
  suffix byte; the header has 8 bytes, and 9 exactly when the serialized key has at
  least 193 bytes. The serialized key has at least the 8 bytes of its header (the
  engine writes two framing bytes and six fixed bytes before any key material).
\<close>

theorem C3_GetBinaryKID_format:
  assumes "8 \<le> length (PublicKey_Serialize ev (PrimaryKey (Entity k)))"
  shows "GetBinaryKID ev k =
           Inr ([KeybaseKIDV1 ev, PubKeyAlgo (PrimaryKey (Entity k))]
                @ Sum256 ev (drop (if 193 \<le> length (PublicKey_Serialize ev (PrimaryKey (Entity k)))
                                   then 9 else 8)
                              (PublicKey_Serialize ev (PrimaryKey (Entity k))))
                @ [IDSuffixKID ev])"
  using assms by (simp add: GetBinaryKID_def Let_def)

theorem C3_GetBinaryKID_format_witness:
  "8 \<le> length (PublicKey_Serialize demo_env (PrimaryKey (Entity bundle_public)))
   \<and> GetBinaryKID demo_env bundle_public = Inr ([1, 17] @ replicate 32 21 @ [0x0a])"
proof -
  have h: "8 \<le> length (PublicKey_Serialize demo_env (PrimaryKey (Entity bundle_public)))"
    by (simp add: demo_env_def bundle_public_def NewPGPKeyBundle_def entity_B_def pk_B_def)
  show ?thesis
    using h C3_GetBinaryKID_format [OF h]
    by (simp add: demo_env_def bundle_public_def NewPGPKeyBundle_def entity_B_def pk_B_def)
qed

subsection \<open>C4: unlocking a bundle that is not encrypted\<close>

text \<open>
  Claim C4, as amended. For every bundle whose primary key and subkeys all have a
  private-key structure, none of them encrypted, \<open>Unlock\<close> returns success at once:
  the result does not depend on the retry machine \<open>run\<close>, the bundle is unchanged and
  the state of the prompt collaborator is the one passed in, so no prompt was made.
\<close>

theorem C4_Unlock_unencrypted_no_prompt:
  assumes "allPrivateKeysPresent k" and "noKeyEncrypted k"
  shows "Unlock run ev k reason secretUI = Inr (None, k, secretUI)"
  using assms by (simp add: Unlock_def scan_present)

theorem C4_Unlock_unencrypted_no_prompt_witness:
  "allPrivateKeysPresent bundle_clear \<and> noKeyEncrypted bundle_clear
   \<and> Unlock demo_Run demo_env bundle_clear ''signing'' 0 = Inr (None, bundle_clear, 0)"
proof -
  have p: "allPrivateKeysPresent bundle_clear"
    by (simp add: allPrivateKeysPresent_def bundle_clear_def NewPGPKeyBundle_def)
  have n: "noKeyEncrypted bundle_clear"
    by (simp add: noKeyEncrypted_def encryptedKey_def bundle_clear_def NewPGPKeyBundle_def
        priv_clear_def)
  from p n C4_Unlock_unencrypted_no_prompt [OF p n, of demo_Run demo_env "''signing''" 0]
  show ?thesis by simp
qed

text \<open>
  The claim as first stated covers every bundle in which no private key is encrypted.
  A public-only bundle is one, and \<open>Unlock\<close> does not return on it: the scan reads
  \<^verbatim>\<open>k.PrivateKey.Encrypted\<close> through the nil pointer.
\<close>

theorem C4_Unlock_public_only_counterexample:
  "noKeyEncrypted bundle_public
   \<and> Unlock demo_Run demo_env bundle_public ''signing'' 0 = Inl NilPointerDereference"
  by (simp add: noKeyEncrypted_def encryptedKey_def Unlock_def isAnyKeyEncrypted_def
      bundle_public_def NewPGPKeyBundle_def entity_B_def)

subsection \<open>C5: fingerprint displays and the hex parser\<close>

text \<open>
  Claim C5, as amended. For every 20-byte fingerprint \<open>fp\<close>, parsing the lowercase hex
  display gives \<open>fp\<close> back. The grouped display \<open>ToQuads\<close> is ten groups of four
  uppercase digits separated by spaces, 49 characters: the hex parser rejects it with
  the wrong-length error, and gives \<open>fp\<close> back once the spaces are removed.
\<close>

theorem C5_fingerprint_round_trip:
  assumes "length fp = 20"
  shows "PGPFingerprintFromHex (String fp) = Inr fp
         \<and> ToQuads ev fp = Inr (quads_of 0 (map asciiUpper (String fp)))
         \<and> PGPFingerprintFromHex (quads_of 0 (map asciiUpper (String fp)))
             = Inl (BadFingerprintWrongLength 49)
         \<and> PGPFingerprintFromHex
               (filter (\<lambda>c. c \<noteq> CHR '' '') (quads_of 0 (map asciiUpper (String fp))))
             = Inr fp"
proof -
  let ?x = "map asciiUpper (hex_EncodeToString fp)"
  have q: "ToQuads ev fp = Inr (quads_of 0 ?x)" by (rule ToQuads_quads_of [OF assms])
  have l: "length (quads_of 0 ?x) = 49" using quads_len [OF assms q] .
  have f: "filter (\<lambda>c. c \<noteq> CHR '' '') (quads_of 0 ?x) = ?x"
    by (rule filter_quads_of) (rule hex_upper_nospace)
  have p1: "PGPFingerprintFromHex (quads_of 0 ?x) = Inl (BadFingerprintWrongLength 49)"
    by (simp add: PGPFingerprintFromHex_def DecodeHexFixed_def PGPFingerprintLen_def l)
  have p2: "PGPFingerprintFromHex ?x = Inr fp"
    using assms by (simp add: PGPFingerprintFromHex_def DecodeHexFixed_def PGPFingerprintLen_def
        len_hex hex_upper_roundtrip)
  show ?thesis using q p1 p2 f fromhex_string [OF assms] by (simp add: String_def)
qed

theorem C5_fingerprint_round_trip_witness:
  "length fp_example = 20
   \<and> PGPFingerprintFromHex (String fp_example) = Inr fp_example
   \<and> PGPFingerprintFromHex
         (filter (\<lambda>c. c \<noteq> CHR '' '') (quads_of 0 (map asciiUpper (String fp_example))))
       = Inr fp_example"
proof -
  have h: "length fp_example = 20" by (simp add: fp_example_def)
  from h C5_fingerprint_round_trip [OF h, of demo_env] show ?thesis by simp
qed

text \<open>
  The claim as first stated has the hex parser recover the fingerprint from the
  grouped display too. It does not: the display of the example fingerprint has 49
  characters, and the parser returns the wrong-length error.
\<close>

theorem C5_quads_not_parsed_counterexample:
  "ToQuads demo_env fp_example = Inr ''0123 4567 89AB CDEF 0001 0203 0405 0607 0809 0AFF''
   \<and> PGPFingerprintFromHex ''0123 4567 89AB CDEF 0001 0203 0405 0607 0809 0AFF''
       = Inl (BadFingerprintWrongLength 49)"
proof -
  have h: "length fp_example = 20" by (simp add: fp_example_def)
  have s: "map asciiUpper (hex_EncodeToString fp_example)
             = ''0123456789ABCDEF000102030405060708090AFF''"
    by code_simp
  have q: "quads_of 0 ''0123456789ABCDEF000102030405060708090AFF''
             = ''0123 4567 89AB CDEF 0001 0203 0405 0607 0809 0AFF''"
    by code_simp
  have p: "PGPFingerprintFromHex ''0123 4567 89AB CDEF 0001 0203 0405 0607 0809 0AFF''
       = Inl (BadFingerprintWrongLength 49)"
    by (simp add: PGPFingerprintFromHex_def DecodeHexFixed_def PGPFingerprintLen_def)
  from ToQuads_quads_of [OF h, of demo_env] s q p show ?thesis by simp
qed

subsection \<open>C6: revocation stripping\<close>

text \<open>
  Claim C6, as amended. \<open>StripRevocations\<close> returns a bundle with no revocation record,
  whose subkeys are those subkeys of its source that have a subkey-binding signature
  and no revocation attached, in their order, and whose identities are the source's.
  The source is the bundle \<open>k\<close> itself when its cached armored text is empty or does not
  decode in strict mode, and the bundle \<open>b\<close> decoded from the cached text otherwise.
\<close>

theorem C6_StripRevocations:
  "Revocations (Entity (StripRevocations ev k)) = []
   \<and> (ArmoredPublicKey k = [] \<or> fst (ReadOneKeyFromString ev (ArmoredPublicKey k)) = None
        \<longrightarrow> Subkeys (Entity (StripRevocations ev k)) = filter subkey_kept (Subkeys (Entity k))
            \<and> Identities (Entity (StripRevocations ev k)) = Identities (Entity k))
   \<and> (\<forall>b. ArmoredPublicKey k \<noteq> [] \<and> fst (ReadOneKeyFromString ev (ArmoredPublicKey k)) = Some b
        \<longrightarrow> Subkeys (Entity (StripRevocations ev k)) = filter subkey_kept (Subkeys (Entity b))
            \<and> Identities (Entity (StripRevocations ev k)) = Identities (Entity b))"
  by (auto simp: StripRevocations_def NewPGPKeyBundle_def Let_def)

theorem C6_StripRevocations_witness:
  "Revocations (Entity (StripRevocations demo_env (NewPGPKeyBundle entity_A1))) = []
   \<and> Subkeys (Entity (StripRevocations demo_env (NewPGPKeyBundle entity_A1))) = [subkey_1]
   \<and> Identities (Entity (StripRevocations demo_env (NewPGPKeyBundle entity_A1)))
       = Identities entity_A1
   \<and> Subkeys (Entity (StripRevocations demo_env
                        ((NewPGPKeyBundle entity_A1)\<lparr>ArmoredPublicKey := ''one''\<rparr>)))
       = [subkey_1]"
proof -
  have e: "ArmoredPublicKey (NewPGPKeyBundle entity_A1) = []"
    by (simp add: NewPGPKeyBundle_def)
  have f: "filter subkey_kept (Subkeys entity_A1) = [subkey_1]"
    by (simp add: entity_A1_def subkey_kept_def
        subkey_1_def subkey_revoked_def sig_binding_def SigTypeSubkeyBinding_def)
  have 1: "Revocations (Entity (StripRevocations demo_env (NewPGPKeyBundle entity_A1))) = []
   \<and> Subkeys (Entity (StripRevocations demo_env (NewPGPKeyBundle entity_A1))) = [subkey_1]
   \<and> Identities (Entity (StripRevocations demo_env (NewPGPKeyBundle entity_A1)))
       = Identities entity_A1"
    using C6_StripRevocations [of demo_env "NewPGPKeyBundle entity_A1"] e f
    by (simp add: NewPGPKeyBundle_def)
  have r: "ArmoredPublicKey ((NewPGPKeyBundle entity_A1)\<lparr>ArmoredPublicKey := ''one''\<rparr>) \<noteq> []
     \<and> fst (ReadOneKeyFromString demo_env
              (ArmoredPublicKey ((NewPGPKeyBundle entity_A1)\<lparr>ArmoredPublicKey := ''one''\<rparr>)))
         = Some ((NewPGPKeyBundle entity_A1)\<lparr>ArmoredPublicKey := ''one''\<rparr>)"
    by (simp add: demo_read_one)
  have 2: "Subkeys (Entity (StripRevocations demo_env
                        ((NewPGPKeyBundle entity_A1)\<lparr>ArmoredPublicKey := ''one''\<rparr>)))
       = [subkey_1]"
    using C6_StripRevocations
            [of demo_env "(NewPGPKeyBundle entity_A1)\<lparr>ArmoredPublicKey := ''one''\<rparr>"] r f
    by (simp add: NewPGPKeyBundle_def)
  from 1 2 show ?thesis by simp
qed

text \<open>
  The claim as first stated keeps every non-revoked subkey of the bundle it is called
  on. A bundle read from an armored text and then merged with a second entity still
  carries the cached text: \<open>StripRevocations\<close> rebuilds the bundle from that text, and the
  merged subkey, which is not revoked, is gone.
\<close>

theorem C6_stale_cache_counterexample:
  "ReadOneKeyFromString demo_env ''one''
     = (Some ((NewPGPKeyBundle entity_A1)\<lparr>ArmoredPublicKey := ''one''\<rparr>), [], None)
   \<and> subkey_2 \<in> set (Subkeys (Entity bundle_merged_after_read))
   \<and> SigType (Sig subkey_2) = SigTypeSubkeyBinding \<and> Revocation subkey_2 = None
   \<and> subkey_2 \<notin> set (Subkeys (Entity (StripRevocations demo_env bundle_merged_after_read)))"
proof -
  have s: "Subkeys (Entity (StripRevocations demo_env bundle_merged_after_read)) = [subkey_1]"
    by (simp add: StripRevocations_def demo_read_one bundle_merged_after_read_def
        demo_MergeKey_def NewPGPKeyBundle_def entity_A1_def subkey_kept_def
        subkey_1_def subkey_revoked_def sig_binding_def SigTypeSubkeyBinding_def)
  have n: "subkey_2 \<noteq> subkey_1"
    by (simp add: subkey_1_def subkey_2_def pk_S_def)
  have i: "subkey_2 \<in> set (Subkeys (Entity bundle_merged_after_read))"
    by (simp add: bundle_merged_after_read_def demo_MergeKey_def NewPGPKeyBundle_def
        entity_A1_def entity_A2_def)
  have k: "SigType (Sig subkey_2) = SigTypeSubkeyBinding \<and> Revocation subkey_2 = None"
    by (simp add: subkey_2_def sig_binding_def SigTypeSubkeyBinding_def)
  from demo_read_one s n i k show ?thesis by simp
qed

subsection \<open>C7: verification against an expected payload\<close>

text \<open>
  Claim C7. When verification of a signature against the bundle succeeds and extracts
  the payload \<open>m\<close>, \<open>VerifyString\<close> with the expected payload \<open>m2\<close> returns the
  verification result if \<open>m2\<close> is byte-equal to \<open>m\<close>, and otherwise the empty result
  with the bad-signature error "wrong payload".
\<close>

theorem C7_VerifyString_payload:
  assumes "VerifyStringAndExtract ev k sig = (m, res, None)"
  shows "VerifyString ev k sig m2 =
           (if m2 = m then (res, None)
            else (SigVerifyResult_zero, Some (BadSigError ''wrong payload'')))"
  using assms by (auto simp: VerifyString_def FastByteArrayEq_def)

theorem C7_VerifyString_payload_witness:
  "VerifyStringAndExtract demo_env bundle_public ''sig''
     = ([1, 2, 3], \<lparr>SigID = ''id'', WeakDigest = None\<rparr>, None)
   \<and> VerifyString demo_env bundle_public ''sig'' [1, 2, 3]
       = (\<lparr>SigID = ''id'', WeakDigest = None\<rparr>, None)
   \<and> VerifyString demo_env bundle_public ''sig'' [1, 2]
       = (SigVerifyResult_zero, Some (BadSigError ''wrong payload''))"
  using C7_VerifyString_payload [OF demo_extract, of "[1, 2, 3]"]
        C7_VerifyString_payload [OF demo_extract, of "[1, 2]"] demo_extract
  by simp

subsection \<open>C8: no encryption\<close>

text \<open>
  Claim C8. For every bundle and every input, \<open>EncryptToString\<close> returns the
  key-cannot-encrypt error, \<open>DecryptFromString\<close> the key-cannot-decrypt error,
  \<open>SecretSymmetricKey\<close> the key-cannot-encrypt error, and \<open>CanEncrypt\<close> and
  \<open>CanDecrypt\<close> are false.
\<close>

theorem C8_encryption_always_fails:
  "EncryptToString k plaintext sender = ([], Some KeyCannotEncryptError)
   \<and> DecryptFromString k ciphertext = ([], [], Some KeyCannotDecryptError)
   \<and> SecretSymmetricKey k reason = (replicate 32 0, Some KeyCannotEncryptError)
   \<and> CanEncrypt k = False \<and> CanDecrypt k = False"
  by (simp add: EncryptToString_def DecryptFromString_def SecretSymmetricKey_def
      CanEncrypt_def CanDecrypt_def)

subsection \<open>C9: nil private keys in Unlock\<close>

text \<open>
  Claim C9, as amended. When the primary key and every subkey have a private-key
  structure, neither the scan \<open>isAnyKeyEncrypted\<close> nor \<open>unlockAllPrivateKeys\<close>
  dereferences nil: the scan returns whether some key is encrypted, \<open>Unlock\<close> returns
  at once or enters the retry machine accordingly, and the bundle after
  \<open>unlockAllPrivateKeys\<close> still has every private-key structure. The scan, the first
  step of \<open>Unlock\<close>, dereferences nil exactly when the primary key has no private-key
  structure, or the primary key is not encrypted and a subkey without private-key
  structure comes before every encrypted subkey; \<open>Unlock\<close> then panics. For any other
  bundle that lacks a private-key structure the scan returns true and \<open>Unlock\<close> enters
  the retry machine; \<open>unlockAllPrivateKeys\<close> dereferences nil exactly when the primary
  key has no private-key structure, or the passphrase opens the primary key and every
  subkey before the first subkey without private-key structure.
\<close>

theorem C9_Unlock_nil_dereference:
  "(allPrivateKeysPresent k \<longrightarrow>
      isAnyKeyEncrypted k = Inr (\<not> noKeyEncrypted k)
      \<and> Unlock run ev k reason secretUI =
          (if noKeyEncrypted k then Inr (None, k, secretUI)
           else run 5 reason (VerboseDescription ev k)
                  (\<lambda>pw k'. unlockAllPrivateKeys ev k' pw) secretUI k)
      \<and> (\<exists>k' e. unlockAllPrivateKeys ev k pw = Inr (k', e) \<and> allPrivateKeysPresent k'))
   \<and> (isAnyKeyEncrypted k = Inl NilPointerDereference \<longleftrightarrow>
        PrivateKey (Entity k) = None \<or>
        (\<not> encryptedKey (PrivateKey (Entity k)) \<and>
         (\<exists>pre subkey post. Subkeys (Entity k) = pre @ subkey # post
             \<and> list_all unencryptedKey pre \<and> Subkey_PrivateKey subkey = None)))
   \<and> (isAnyKeyEncrypted k = Inl NilPointerDereference \<longrightarrow>
        Unlock run ev k reason secretUI = Inl NilPointerDereference)
   \<and> (\<not> allPrivateKeysPresent k \<and> isAnyKeyEncrypted k \<noteq> Inl NilPointerDereference \<longrightarrow>
        isAnyKeyEncrypted k = Inr True
        \<and> Unlock run ev k reason secretUI =
            run 5 reason (VerboseDescription ev k)
              (\<lambda>pw k'. unlockAllPrivateKeys ev k' pw) secretUI k)
   \<and> (unlockAllPrivateKeys ev k pw = Inl NilPointerDereference \<longleftrightarrow>
        PrivateKey (Entity k) = None \<or>
        (opensWith ev pw (PrivateKey (Entity k)) \<and>
         (\<exists>pre subkey post. Subkeys (Entity k) = pre @ subkey # post
             \<and> list_all (\<lambda>s. opensWith ev pw (Subkey_PrivateKey s)) pre
             \<and> Subkey_PrivateKey subkey = None)))"
proof (intro conjI impI)
  assume "allPrivateKeysPresent k"
  then show "isAnyKeyEncrypted k = Inr (\<not> noKeyEncrypted k)" by (rule scan_present)
next
  assume "allPrivateKeysPresent k"
  then have "isAnyKeyEncrypted k = Inr (\<not> noKeyEncrypted k)" by (rule scan_present)
  then show "Unlock run ev k reason secretUI =
          (if noKeyEncrypted k then Inr (None, k, secretUI)
           else run 5 reason (VerboseDescription ev k)
                  (\<lambda>pw k'. unlockAllPrivateKeys ev k' pw) secretUI k)"
    by (simp add: Unlock_def)
next
  assume "allPrivateKeysPresent k"
  then show "\<exists>k' e. unlockAllPrivateKeys ev k pw = Inr (k', e) \<and> allPrivateKeysPresent k'"
    by (rule unlockAll_keeps_present)
next
  show "isAnyKeyEncrypted k = Inl NilPointerDereference \<longleftrightarrow>
        PrivateKey (Entity k) = None \<or>
        (\<not> encryptedKey (PrivateKey (Entity k)) \<and>
         (\<exists>pre subkey post. Subkeys (Entity k) = pre @ subkey # post
             \<and> list_all unencryptedKey pre \<and> Subkey_PrivateKey subkey = None))"
    by (rule scan_nil_iff)
next
  assume "isAnyKeyEncrypted k = Inl NilPointerDereference"
  then show "Unlock run ev k reason secretUI = Inl NilPointerDereference"
    by (simp add: Unlock_def)
next
  assume "\<not> allPrivateKeysPresent k \<and> isAnyKeyEncrypted k \<noteq> Inl NilPointerDereference"
  then show "isAnyKeyEncrypted k = Inr True" using scan_otherwise_true by blast
next
  assume "\<not> allPrivateKeysPresent k \<and> isAnyKeyEncrypted k \<noteq> Inl NilPointerDereference"
  then have "isAnyKeyEncrypted k = Inr True" using scan_otherwise_true by blast
  then show "Unlock run ev k reason secretUI =
            run 5 reason (VerboseDescription ev k)
              (\<lambda>pw k'. unlockAllPrivateKeys ev k' pw) secretUI k"
    by (simp add: Unlock_def)
next
  show "unlockAllPrivateKeys ev k pw = Inl NilPointerDereference \<longleftrightarrow>
        PrivateKey (Entity k) = None \<or>
        (opensWith ev pw (PrivateKey (Entity k)) \<and>
         (\<exists>pre subkey post. Subkeys (Entity k) = pre @ subkey # post
             \<and> list_all (\<lambda>s. opensWith ev pw (Subkey_PrivateKey s)) pre
             \<and> Subkey_PrivateKey subkey = None))"
    by (rule unlockAll_nil_iff)
qed

theorem C9_Unlock_nil_dereference_witness:
  "isAnyKeyEncrypted bundle_clear = Inr False
   \<and> Unlock demo_Run demo_env bundle_public ''signing'' 0 = Inl NilPointerDereference
   \<and> Unlock demo_Run demo_env bundle_clear_stub ''signing'' 0 = Inl NilPointerDereference
   \<and> isAnyKeyEncrypted bundle_locked_stub = Inr True
   \<and> Unlock demo_Run demo_env bundle_locked_stub ''signing'' 0
       = demo_Run 5 ''signing'' (VerboseDescription demo_env bundle_locked_stub)
           (\<lambda>pw k'. unlockAllPrivateKeys demo_env k' pw) 0 bundle_locked_stub
   \<and> unlockAllPrivateKeys demo_env bundle_locked_stub ''right'' = Inl NilPointerDereference
   \<and> unlockAllPrivateKeys demo_env bundle_locked_stub ''wrong'' \<noteq> Inl NilPointerDereference"
proof -
  note thm_clear = C9_Unlock_nil_dereference [of bundle_clear demo_Run demo_env "''signing''" 0 "''right''"]
  note thm_public = C9_Unlock_nil_dereference [of bundle_public demo_Run demo_env "''signing''" 0 "''right''"]
  note thm_stub = C9_Unlock_nil_dereference [of bundle_clear_stub demo_Run demo_env "''signing''" 0 "''right''"]
  note thm_right = C9_Unlock_nil_dereference [of bundle_locked_stub demo_Run demo_env "''signing''" 0 "''right''"]
  note thm_wrong = C9_Unlock_nil_dereference [of bundle_locked_stub demo_Run demo_env "''signing''" 0 "''wrong''"]
  have p: "allPrivateKeysPresent bundle_clear"
    by (simp add: allPrivateKeysPresent_def bundle_clear_def NewPGPKeyBundle_def)
  have n: "noKeyEncrypted bundle_clear"
    by (simp add: noKeyEncrypted_def encryptedKey_def bundle_clear_def NewPGPKeyBundle_def
        priv_clear_def)
  have 1: "isAnyKeyEncrypted bundle_clear = Inr False"
    using thm_clear p n by simp
  have q: "PrivateKey (Entity bundle_public) = None"
    by (simp add: bundle_public_def NewPGPKeyBundle_def entity_B_def)
  have 2: "Unlock demo_Run demo_env bundle_public ''signing'' 0 = Inl NilPointerDereference"
    using thm_public q by blast
  have s: "\<not> encryptedKey (PrivateKey (Entity bundle_clear_stub))
     \<and> Subkeys (Entity bundle_clear_stub) = [] @ subkey_2 # []
     \<and> list_all unencryptedKey [] \<and> Subkey_PrivateKey subkey_2 = None"
    by (simp add: bundle_clear_stub_def NewPGPKeyBundle_def entity_A2_def subkey_2_def
        encryptedKey_def priv_clear_def)
  have 3: "Unlock demo_Run demo_env bundle_clear_stub ''signing'' 0 = Inl NilPointerDereference"
    using thm_stub s by blast
  have m: "\<not> allPrivateKeysPresent bundle_locked_stub"
    by (simp add: allPrivateKeysPresent_def bundle_locked_stub_def
      NewPGPKeyBundle_def entity_A2_def subkey_2_def)
  have e: "PrivateKey (Entity bundle_locked_stub) \<noteq> None
     \<and> encryptedKey (PrivateKey (Entity bundle_locked_stub))"
    by (simp add: bundle_locked_stub_def NewPGPKeyBundle_def entity_A2_def encryptedKey_def
        priv_locked_def)
  have ns: "isAnyKeyEncrypted bundle_locked_stub \<noteq> Inl NilPointerDereference"
    using thm_right e by blast
  have 4: "isAnyKeyEncrypted bundle_locked_stub = Inr True
   \<and> Unlock demo_Run demo_env bundle_locked_stub ''signing'' 0
       = demo_Run 5 ''signing'' (VerboseDescription demo_env bundle_locked_stub)
           (\<lambda>pw k'. unlockAllPrivateKeys demo_env k' pw) 0 bundle_locked_stub"
    using thm_right m ns by blast
  have o: "opensWith demo_env ''right'' (PrivateKey (Entity bundle_locked_stub))
     \<and> Subkeys (Entity bundle_locked_stub) = [] @ subkey_2 # []
     \<and> list_all (\<lambda>s. opensWith demo_env ''right'' (Subkey_PrivateKey s)) []
     \<and> Subkey_PrivateKey subkey_2 = None"
    by (simp add: opensWith_def bundle_locked_stub_def NewPGPKeyBundle_def entity_A2_def
        subkey_2_def priv_locked_def demo_env_def demo_Decrypt_def)
  have 5: "unlockAllPrivateKeys demo_env bundle_locked_stub ''right'' = Inl NilPointerDereference"
    using thm_right o by blast
  have w: "\<not> opensWith demo_env ''wrong'' (PrivateKey (Entity bundle_locked_stub))"
    by (simp add: opensWith_def bundle_locked_stub_def NewPGPKeyBundle_def entity_A2_def
        priv_locked_def demo_env_def demo_Decrypt_def)
  have 6: "unlockAllPrivateKeys demo_env bundle_locked_stub ''wrong'' \<noteq> Inl NilPointerDereference"
    using thm_wrong e w by blast
  from 1 2 3 4 5 6 show ?thesis by simp
qed

text \<open>
  The claim as first stated has the nil dereference on the first step of \<open>Unlock\<close> for
  every bundle that lacks a private-key structure. A bundle with an encrypted primary
  key and a subkey without private key passes the scan: it returns true at the primary
  key and never reads the subkey.
\<close>

theorem C9_scan_passes_counterexample:
  "\<not> allPrivateKeysPresent bundle_locked_stub
   \<and> isAnyKeyEncrypted bundle_locked_stub = Inr True"
  by (simp add: allPrivateKeysPresent_def isAnyKeyEncrypted_def bundle_locked_stub_def
      NewPGPKeyBundle_def entity_A2_def subkey_2_def priv_locked_def)

subsection \<open>C10: matching on a nil fingerprint\<close>

text \<open>
  Claim C10. For every query string and both matching modes, \<open>Match\<close> on a nil
  fingerprint pointer returns false: the nil receiver is a case of the function, not a
  panic.
\<close>

theorem C10_Match_nil_receiver: "Match ev None q exact = False"
  by (simp add: Match_def)


end
